theory Spec2Isabelle
  imports Complex_Main
begin

section \<open>The transport library and the exceptions of \<open>sensapex.py\<close>\<close>

text \<open>
  The C library \<open>libump\<close> is outside the Python source. It is taken as a parameter: a
  record of functions over an arbitrary library state \<open>'s\<close> (the contents of the
  \<open>ump_state\<close> structure behind the handle, together with whatever the devices do).
  \<open>lib_fn fn args s\<close> is \<open>getattr(self.lib, fn)(self.h, *args)\<close>: it gives the returned
  integer, the integers written through the by-reference arguments, and the next state.
\<close>

record 's ump_lib =
  lib_fn :: "string \<Rightarrow> int list \<Rightarrow> 's \<Rightarrow> int \<times> int list \<times> 's"
  ump_last_error :: "'s \<Rightarrow> int"
  ump_last_os_errno :: "'s \<Rightarrow> int"
  ump_errorstr :: "int \<Rightarrow> string"
  ump_is_busy_status :: "int \<Rightarrow> int"
  last_device_received :: "'s \<Rightarrow> int option"
  os_strerror :: "int \<Rightarrow> string"

text \<open>
  The message of a \<open>UMPError\<close> is kept as the operands of its format string:
  \<open>"UMP OS Error %d: %s" % (oserr, os.strerror(oserr))\<close>,
  \<open>"UMP Error %d: %s  From %s%r" % (err, errstr, fn, args)\<close>, or a plain string.
\<close>

datatype msg =
    UMP_OS_Error int string
  | UMP_Error_From int string string "int list"
  | Plain string

text \<open>
  \<open>UMPError msg errno oserrno\<close> is the class \<open>UMPError(msg, errno, oserrno)\<close>; \<open>None\<close> is
  Python's \<open>None\<close>. \<open>TypeError\<close> is what \<open>call\<close> raises on a session without handle,
  \<open>UnboundLocalError\<close> what reading a local variable before its first assignment raises,
  \<open>AttributeError\<close> what \<open>self.h.contents\<close> raises when \<open>self.h\<close> is \<open>None\<close>.
\<close>

datatype exn =
    TypeError string
  | UMPError msg "int option" "int option"
  | UnboundLocalError string
  | AttributeError string

definition LIBUMP_MAX_MANIPULATORS :: int where
  "LIBUMP_MAX_MANIPULATORS = 254"

definition LIBUMP_TIMEOUT :: int where
  "LIBUMP_TIMEOUT = - 3"

text \<open>\<open>c_int(v)\<close>: a C \<open>int\<close> of 32 bits, without overflow check.\<close>

definition c_int :: "int \<Rightarrow> int" where
  "c_int v = (v + 2 ^ 31) mod 2 ^ 32 - 2 ^ 31"

section \<open>The session: class \<open>UMP\<close>\<close>

text \<open>
  \<open>PollThread\<close>: the table \<open>callbacks\<close> (device id to the list of its observers, an
  observer being named by a number), the flag \<open>_stop\<close>, whether the thread is alive, and
  the invocations made so far, each \<open>(observer, dev_id, new_pos, old_pos)\<close>.
\<close>

record PollThread =
  callbacks :: "(int \<times> nat list) list"
  stop_flag :: bool
  alive :: bool
  invoked :: "(nat \<times> int \<times> int list \<times> int list option) list"

text \<open>
  \<open>h\<close> is the handle: \<open>None\<close> when the session is not open, otherwise the library state
  it points to. \<open>timeout\<close> is \<open>self._timeout\<close>, \<open>axis_counts\<close> is \<open>self._axis_counts\<close>,
  \<open>has_axis_count\<close> is \<open>self._ump_has_axis_count\<close>.
\<close>

record 's UMP =
  h :: "'s option"
  timeout :: int
  has_axis_count :: bool
  axis_counts :: "int \<rightharpoonup> int"
  poller :: PollThread

type_synonym ('s, 'a) outcome = "(exn + 'a) \<times> 's UMP"

text \<open>
  \<open>UMP.call\<close>. The result carries, next to \<open>rval\<close>, the integers the primitive wrote
  through its by-reference arguments.
\<close>

definition call :: "'s ump_lib \<Rightarrow> string \<Rightarrow> int list \<Rightarrow> 's UMP \<Rightarrow> ('s, int \<times> int list) outcome" where
  "call L fn args S =
     (case h S of
        None \<Rightarrow> (Inl (TypeError ''UMP is not open.''), S)
      | Some s \<Rightarrow>
          (case lib_fn L fn args s of
             (rval, outs, s') \<Rightarrow>
               (let S' = S\<lparr>h := Some s'\<rparr> in
                if rval < 0 then
                  (let err = ump_last_error L s';
                       errstr = ump_errorstr L err
                   in if err = - 1 then
                        (let oserr = ump_last_os_errno L s'
                         in (Inl (UMPError (UMP_OS_Error oserr (os_strerror L oserr)) None (Some oserr)), S'))
                      else (Inl (UMPError (UMP_Error_From err errstr fn args) (Some err) None), S'))
                else (Inr (rval, outs), S'))))"

text \<open>
  The exception \<open>call\<close> raises after a negative return value, built from the state
  \<open>s'\<close> the primitive left: the last error code, its error string, and the OS errno
  when the code is \<open>-1\<close>.
\<close>

definition call_error :: "'s ump_lib \<Rightarrow> string \<Rightarrow> int list \<Rightarrow> 's \<Rightarrow> exn" where
  "call_error L fn args s' =
     (let err = ump_last_error L s'
      in if err = - 1 then
           UMPError (UMP_OS_Error (ump_last_os_errno L s') (os_strerror L (ump_last_os_errno L s')))
             None (Some (ump_last_os_errno L s'))
         else UMPError (UMP_Error_From err (ump_errorstr L err) fn args) (Some err) None)"

text \<open>\<open>UMP.set_timeout\<close>: the attribute is assigned before the library is called.\<close>

definition set_timeout :: "'s ump_lib \<Rightarrow> int \<Rightarrow> 's UMP \<Rightarrow> ('s, unit) outcome" where
  "set_timeout L t S =
     (case call L ''ump_set_timeout'' [t] (S\<lparr>timeout := t\<rparr>) of
        (Inl e, S') \<Rightarrow> (Inl e, S')
      | (Inr _, S') \<Rightarrow> (Inr (), S'))"

text \<open>\<open>UMP.axis_count\<close>.\<close>

definition axis_count :: "'s ump_lib \<Rightarrow> int \<Rightarrow> 's UMP \<Rightarrow> ('s, int) outcome" where
  "axis_count L dev S =
     (if \<not> has_axis_count S then (Inr 4, S)
      else
        (case axis_counts S dev of
           Some c \<Rightarrow> (Inr c, S)
         | None \<Rightarrow>
             (case call L ''ump_get_axis_count_ext'' [dev] S of
                (Inl e, S') \<Rightarrow> (Inl e, S')
              | (Inr (c, _), S') \<Rightarrow> (Inr c, S'\<lparr>axis_counts := (axis_counts S')(dev \<mapsto> c)\<rparr>))))"

text \<open>
  The slice \<open>xs[:n]\<close> of Python: a negative \<open>n\<close> counts from the end.
\<close>

definition py_slice_to :: "'a list \<Rightarrow> int \<Rightarrow> 'a list" where
  "py_slice_to xs n = (if n < 0 then take (nat (int (length xs) + n)) xs else take (nat n) xs)"

text \<open>
  The five \<open>c_int()\<close> objects of \<open>get_pos\<close>, created as 0, after the library wrote
  \<open>outs\<close> through the references.
\<close>

definition xyzwe :: "int list \<Rightarrow> int list" where
  "xyzwe outs = take 5 (outs @ replicate (5 - length outs) 0)"

text \<open>
  \<open>UMP.get_pos(dev, timeout)\<close>; the argument \<open>None\<close> stands for \<open>timeout=None\<close>, and the
  default of the source is \<open>Some 0\<close>.
\<close>

definition get_pos :: "'s ump_lib \<Rightarrow> int \<Rightarrow> int option \<Rightarrow> 's UMP \<Rightarrow> ('s, int list) outcome" where
  "get_pos L dev tmo S =
     (let t = (case tmo of None \<Rightarrow> timeout S | Some t \<Rightarrow> t) in
      case call L ''ump_get_positions_ext'' [c_int dev, c_int t] S of
        (Inl e, S1) \<Rightarrow> (Inl e, S1)
      | (Inr (r, outs), S1) \<Rightarrow>
          (case axis_count L dev S1 of
             (Inl e, S2) \<Rightarrow> (Inl e, S2)
           | (Inr n_axes, S2) \<Rightarrow> (Inr (py_slice_to (xyzwe outs) n_axes), S2)))"

text \<open>
  \<open>UMP.list_devices\<close>. The loop body over the ids \<open>range(min(max_id, 254))\<close>: an
  \<open>UMPError\<close> with errno \<open>-5\<close> or \<open>-6\<close> skips the id, any other exception leaves the loop.
\<close>

fun list_devices_loop :: "'s ump_lib \<Rightarrow> int list \<Rightarrow> int list \<Rightarrow> 's UMP \<Rightarrow> ('s, int list) outcome" where
  "list_devices_loop L [] devs S = (Inr devs, S)"
| "list_devices_loop L (i # rest) devs S =
     (case get_pos L i (Some 0) S of
        (Inr p, S1) \<Rightarrow> list_devices_loop L rest (devs @ [i]) S1
      | (Inl (UMPError m errno oserrno), S1) \<Rightarrow>
          if errno = Some (- 5) \<or> errno = Some (- 6) then list_devices_loop L rest devs S1
          else (Inl (UMPError m errno oserrno), S1)
      | (Inl e, S1) \<Rightarrow> (Inl e, S1))"

text \<open>
  The \<open>finally\<close> clause of \<open>list_devices\<close> and \<open>recv_all\<close>: \<open>set_timeout(old_timeout)\<close>
  runs after the body, and an exception it raises replaces the body's outcome.
\<close>

definition finally_set_timeout :: "'s ump_lib \<Rightarrow> int \<Rightarrow> ('s, 'a) outcome \<Rightarrow> ('s, 'a) outcome" where
  "finally_set_timeout L old_timeout body =
     (case body of
        (res, S2) \<Rightarrow>
          (case set_timeout L old_timeout S2 of
             (Inl e, S3) \<Rightarrow> (Inl e, S3)
           | (Inr _, S3) \<Rightarrow> (res, S3)))"

definition list_devices :: "'s ump_lib \<Rightarrow> int \<Rightarrow> 's UMP \<Rightarrow> ('s, int list) outcome" where
  "list_devices L max_id S =
     (let old_timeout = timeout S in
      case set_timeout L 20 S of
        (Inl e, S1) \<Rightarrow> (Inl e, S1)
      | (Inr _, S1) \<Rightarrow>
          finally_set_timeout L old_timeout
            (list_devices_loop L (map int [0 ..< nat (min max_id LIBUMP_MAX_MANIPULATORS)]) [] S1))"

text \<open>\<open>UMP.recv\<close>.\<close>

definition recv :: "'s ump_lib \<Rightarrow> 's UMP \<Rightarrow> ('s, int option) outcome" where
  "recv L S =
     (case call L ''ump_receive'' [0] S of
        (Inl e, S') \<Rightarrow> (Inl e, S')
      | (Inr (count, _), S') \<Rightarrow>
          if count = 0 then
            (Inl (UMPError (Plain (ump_errorstr L LIBUMP_TIMEOUT)) (Some LIBUMP_TIMEOUT) None), S')
          else
            (case h S' of
               None \<Rightarrow> (Inl (AttributeError ''contents''), S')
             | Some s \<Rightarrow> (Inr (last_device_received L s), S')))"

text \<open>The test \<open>d is None or d > 0\<close> of \<open>recv_all\<close>.\<close>

definition is_None_or_positive :: "int option \<Rightarrow> bool" where
  "is_None_or_positive d = (case d of None \<Rightarrow> True | Some x \<Rightarrow> x > 0)"

text \<open>
  The \<open>while True\<close> loop of \<open>UMP.recv_all\<close>, with fuel: \<open>None\<close> is a loop that has not
  ended within the fuel. The local variable \<open>d\<close> is \<open>None\<close> while it is unbound, and
  \<open>Some v\<close> once assigned, \<open>v\<close> being \<open>None\<close> or an integer as in Python. \<open>devs\<close> is the
  set under construction, kept as a list without duplicates. The \<open>except\<close> clause has no
  \<open>else\<close>: an \<open>UMPError\<close> whose errno is not \<open>-3\<close> goes on to the test of \<open>d\<close>.
\<close>

fun recv_all_loop ::
  "nat \<Rightarrow> 's ump_lib \<Rightarrow> int option option \<Rightarrow> int option list \<Rightarrow> 's UMP \<Rightarrow> ('s, int option list) outcome option" where
  "recv_all_loop 0 L d devs S = None"
| "recv_all_loop (Suc n) L d devs S =
     (case recv L S of
        (Inl (UMPError m errno oserrno), S1) \<Rightarrow>
          if errno = Some (- 3) then Some (Inr devs, S1)
          else
            (case d of
               None \<Rightarrow> Some (Inl (UnboundLocalError ''d''), S1)
             | Some v \<Rightarrow>
                 recv_all_loop n L d
                   (if is_None_or_positive v then List.insert v devs else devs) S1)
      | (Inl e, S1) \<Rightarrow> Some (Inl e, S1)
      | (Inr v, S1) \<Rightarrow>
          recv_all_loop n L (Some v)
            (if is_None_or_positive v then List.insert v devs else devs) S1)"

definition recv_all :: "nat \<Rightarrow> 's ump_lib \<Rightarrow> 's UMP \<Rightarrow> ('s, int option list) outcome option" where
  "recv_all fuel L S =
     (let old_timeout = timeout S in
      case set_timeout L 0 S of
        (Inl e, S1) \<Rightarrow> Some (Inl e, S1)
      | (Inr _, S1) \<Rightarrow>
          map_option (finally_set_timeout L old_timeout) (recv_all_loop fuel L None [] S1))"

text \<open>
  \<open>UMP.close\<close>. \<open>PollThread.stop\<close> sets the flag; \<open>join\<close> returns once the thread has
  ended. \<open>ump_close\<close> is called on the handle, whose state is then forgotten.
\<close>

definition PollThread_stop :: "PollThread \<Rightarrow> PollThread" where
  "PollThread_stop P = P\<lparr>stop_flag := True\<rparr>"

definition PollThread_join :: "PollThread \<Rightarrow> PollThread" where
  "PollThread_join P = P\<lparr>alive := False\<rparr>"

definition close :: "'s UMP \<Rightarrow> 's UMP" where
  "close S =
     (let S1 = (if alive (poller S) then S\<lparr>poller := PollThread_join (PollThread_stop (poller S))\<rparr> else S)
      in S1\<lparr>h := None\<rparr>)"

subsection \<open>Motion: \<open>goto_pos\<close>\<close>

text \<open>\<open>int(x)\<close> of a finite number truncates towards zero.\<close>

definition py_int :: "real \<Rightarrow> int" where
  "py_int x = (if 0 \<le> x then \<lfloor>x\<rfloor> else \<lceil>x\<rceil>)"

text \<open>
  A Python number as it occurs in \<open>goto_pos\<close>: an \<open>int\<close> or a float. The floats are
  values of a type \<open>'f\<close>, and the float arithmetic of Python and numpy is taken as a
  parameter: \<open>float_of\<close> is the conversion of a finite number to a float (\<open>float(n)\<close> for
  an \<open>int\<close>, the float itself for a float; \<open>None\<close> when it raises \<open>OverflowError\<close>),
  \<open>fdiv\<close>, \<open>fmul\<close> and \<open>fabs\<close> are \<open>/\<close>, \<open>*\<close> and \<open>abs\<close> on floats, \<open>fgreater x n\<close> is
  the comparison \<open>x > n\<close> of a float with an \<open>int\<close>, \<open>int_of\<close> is \<open>int(x)\<close> (\<open>None\<close> when it
  raises, as on an infinity), and \<open>np_linalg_norm\<close> is numpy's \<open>np.linalg.norm\<close>.
\<close>

datatype 'f num = PyInt int | PyFloat 'f

record 'f pyfloat =
  float_of :: "real \<Rightarrow> 'f option"
  fdiv :: "'f \<Rightarrow> 'f \<Rightarrow> 'f"
  fmul :: "'f \<Rightarrow> 'f \<Rightarrow> 'f"
  fabs :: "'f \<Rightarrow> 'f"
  fgreater :: "'f \<Rightarrow> int \<Rightarrow> bool"
  int_of :: "'f \<Rightarrow> int option"
  np_linalg_norm :: "'f list \<Rightarrow> 'f"

text \<open>
  \<open>diff = [float(p-c) for p,c in zip(pos, current_pos)]\<close>; \<open>None\<close> when a conversion
  raises.
\<close>

definition goto_diff :: "'f pyfloat \<Rightarrow> int list \<Rightarrow> int list \<Rightarrow> 'f list option" where
  "goto_diff F pos current_pos =
     those (map (\<lambda>(p, c). float_of F (of_int (p - c))) (zip pos current_pos))"

text \<open>
  \<open>dist = max(1, np.linalg.norm(diff))\<close>: \<open>max\<close> returns its second argument when that is
  greater than the first, and the first, the \<open>int\<close> 1, otherwise.
\<close>

definition goto_dist :: "'f pyfloat \<Rightarrow> 'f list \<Rightarrow> 'f num" where
  "goto_dist F diff =
     (let n = np_linalg_norm F diff in if fgreater F n 1 then PyFloat n else PyInt 1)"

text \<open>The float a number becomes where it meets a float in \<open>/\<close> or \<open>*\<close>.\<close>

definition num_float :: "'f pyfloat \<Rightarrow> 'f num \<Rightarrow> 'f option" where
  "num_float F x = (case x of PyFloat v \<Rightarrow> Some v | PyInt k \<Rightarrow> float_of F (of_int k))"

text \<open>
  \<open>max(32, speed * abs(d / dist))\<close> for one entry \<open>d\<close> of \<open>diff\<close>: the division, then the
  absolute value, then the product with \<open>speed\<close>; the \<open>int\<close> 32 unless the product is
  greater.
\<close>

definition axis_speed :: "'f pyfloat \<Rightarrow> real \<Rightarrow> 'f num \<Rightarrow> 'f \<Rightarrow> 'f num option" where
  "axis_speed F speed dst d =
     (case (float_of F speed, num_float F dst) of
        (Some s, Some dd) \<Rightarrow>
          (let v = fmul F s (fabs F (fdiv F d dd))
           in Some (if fgreater F v 32 then PyFloat v else PyInt 32))
      | _ \<Rightarrow> None)"

text \<open>
  \<open>speed = [max(32, speed * abs(d / dist)) for d in diff]\<close> followed by
  \<open>speed + [0] * (4-len(speed))\<close>.
\<close>

definition goto_speed :: "'f pyfloat \<Rightarrow> real \<Rightarrow> 'f list \<Rightarrow> 'f num list option" where
  "goto_speed F speed diff =
     (let dst = goto_dist F diff
      in map_option (\<lambda>sp. sp @ replicate (4 - length sp) (PyInt 0))
           (those (map (axis_speed F speed dst) diff)))"

text \<open>
  The speeds \<open>goto_pos dev pos speed\<close> plans when \<open>get_pos\<close> gave \<open>current_pos\<close>:
  \<open>pos\<close> is padded to four entries and \<open>speed\<close> replaced by \<open>max(1, speed)\<close> first.
  \<open>speed\<close> is the finite number the caller passed.
\<close>

definition goto_pos_speeds :: "'f pyfloat \<Rightarrow> int list \<Rightarrow> real \<Rightarrow> int list \<Rightarrow> 'f num list option" where
  "goto_pos_speeds F pos speed current_pos =
     (case goto_diff F (pos @ replicate (4 - length pos) 0) current_pos of
        None \<Rightarrow> None
      | Some diff \<Rightarrow> goto_speed F (max 1 speed) diff)"

text \<open>\<open>int(x)\<close> of a number.\<close>

definition num_int :: "'f pyfloat \<Rightarrow> 'f num \<Rightarrow> int option" where
  "num_int F x = (case x of PyInt k \<Rightarrow> Some k | PyFloat v \<Rightarrow> int_of F v)"

text \<open>
  \<open>args = [c_int(int(x)) for x in [dev] + pos + speed + [mode]]\<close> of the second \<open>try\<close>
  block; \<open>None\<close> when something in the block raised.
\<close>

definition goto_pos_args :: "'f pyfloat \<Rightarrow> int \<Rightarrow> int list \<Rightarrow> real \<Rightarrow> int \<Rightarrow> int list \<Rightarrow> int list option" where
  "goto_pos_args F dev pos speed mode current_pos =
     (case goto_pos_speeds F pos speed current_pos of
        None \<Rightarrow> None
      | Some sp \<Rightarrow>
          map_option (\<lambda>ks. map c_int ([dev] @ (pos @ replicate (4 - length pos) 0) @ ks @ [mode]))
            (those (map (num_int F) sp)))"

text \<open>
  \<open>UMP.goto_pos\<close> with \<open>block=False\<close>, up to the two library calls. When \<open>get_pos\<close> or
  anything else in the second \<open>try\<close> block raises, the bare \<open>except\<close> keeps the arguments
  built from the uniform speed.
\<close>

definition goto_pos ::
  "'s ump_lib \<Rightarrow> 'f pyfloat \<Rightarrow> int \<Rightarrow> int list \<Rightarrow> real \<Rightarrow> bool \<Rightarrow> 's UMP \<Rightarrow> ('s, unit) outcome" where
  "goto_pos L F dev pos speed simultaneous S =
     (let pos4 = pos @ replicate (4 - length pos) 0;
          mode = (if simultaneous then 1 else 0);
          speed1 = max 1 speed;
          args1 = map c_int ([dev] @ pos4 @ map py_int [speed1, speed1, speed1, speed1] @ [mode])
      in case get_pos L dev (Some 0) S of
           (r, S1) \<Rightarrow>
             (let args = (case r of
                            Inl e \<Rightarrow> args1
                          | Inr current_pos \<Rightarrow>
                              (case goto_pos_args F dev pos speed mode current_pos of
                                 None \<Rightarrow> args1
                               | Some a \<Rightarrow> a))
              in case call L ''ump_goto_position_ext2'' args S1 of
                   (Inl e, S2) \<Rightarrow> (Inl e, S2)
                 | (Inr _, S2) \<Rightarrow>
                     (case call L ''ump_receive'' [1] S2 of
                        (Inl e, S3) \<Rightarrow> (Inl e, S3)
                      | (Inr _, S3) \<Rightarrow> (Inr (), S3))))"

subsection \<open>The other operations of the session\<close>

definition call_int :: "'s ump_lib \<Rightarrow> string \<Rightarrow> int list \<Rightarrow> 's UMP \<Rightarrow> ('s, int) outcome" where
  "call_int L fn args S = (case call L fn args S of (Inl e, S') \<Rightarrow> (Inl e, S') | (Inr (r, _), S') \<Rightarrow> (Inr r, S'))"

definition is_busy :: "'s ump_lib \<Rightarrow> int \<Rightarrow> 's UMP \<Rightarrow> ('s, bool) outcome" where
  "is_busy L dev S =
     (case call L ''ump_receive'' [10] S of
        (Inl e, S1) \<Rightarrow> (Inl e, S1)
      | (Inr _, S1) \<Rightarrow>
          (case call L ''ump_get_status_ext'' [c_int dev] S1 of
             (Inl e, S2) \<Rightarrow> (Inl e, S2)
           | (Inr (status, _), S2) \<Rightarrow> (Inr (ump_is_busy_status L (c_int status) \<noteq> 0), S2)))"

definition stop_all :: "'s ump_lib \<Rightarrow> 's UMP \<Rightarrow> ('s, int) outcome" where
  "stop_all L S = call_int L ''ump_stop_all'' [] S"

definition stop :: "'s ump_lib \<Rightarrow> int \<Rightarrow> 's UMP \<Rightarrow> ('s, int) outcome" where
  "stop L dev S = call_int L ''ump_stop_ext'' [c_int dev] S"

definition select :: "'s ump_lib \<Rightarrow> int \<Rightarrow> 's UMP \<Rightarrow> ('s, int) outcome" where
  "select L dev S = call_int L ''ump_cu_select_manipulator'' [dev] S"

definition set_active :: "'s ump_lib \<Rightarrow> int \<Rightarrow> bool \<Rightarrow> 's UMP \<Rightarrow> ('s, int) outcome" where
  "set_active L dev active S = call_int L ''ump_cu_set_active'' [dev, if active then 1 else 0] S"

definition set_pressure :: "'s ump_lib \<Rightarrow> int \<Rightarrow> int \<Rightarrow> int \<Rightarrow> 's UMP \<Rightarrow> ('s, int) outcome" where
  "set_pressure L dev channel v S = call_int L ''umv_set_pressure'' [dev, channel, v] S"

definition get_pressure :: "'s ump_lib \<Rightarrow> int \<Rightarrow> int \<Rightarrow> 's UMP \<Rightarrow> ('s, int) outcome" where
  "get_pressure L dev channel S = call_int L ''umv_get_pressure'' [dev, channel] S"

definition set_valve :: "'s ump_lib \<Rightarrow> int \<Rightarrow> int \<Rightarrow> int \<Rightarrow> 's UMP \<Rightarrow> ('s, int) outcome" where
  "set_valve L dev channel v S = call_int L ''umv_set_valve'' [dev, channel, v] S"

definition get_valve :: "'s ump_lib \<Rightarrow> int \<Rightarrow> int \<Rightarrow> 's UMP \<Rightarrow> ('s, int) outcome" where
  "get_valve L dev channel S = call_int L ''umv_get_valve'' [dev, channel] S"

definition set_custom_slow_speed :: "'s ump_lib \<Rightarrow> int \<Rightarrow> bool \<Rightarrow> 's UMP \<Rightarrow> ('s, int) outcome" where
  "set_custom_slow_speed L dev enabled S =
     call_int L ''ump_set_ext_feature'' [c_int dev, c_int 32, c_int (if enabled then 1 else 0)] S"

definition get_custom_slow_speed :: "'s ump_lib \<Rightarrow> int \<Rightarrow> 's UMP \<Rightarrow> ('s, int) outcome" where
  "get_custom_slow_speed L dev S = call_int L ''ump_get_ext_feature'' [c_int dev, c_int 32] S"

section \<open>Device handles and the poller\<close>

text \<open>\<open>PollThread.add_callback\<close>: \<open>self.callbacks.setdefault(dev_id, []).append(callback)\<close>.\<close>

fun setdefault_append :: "int \<Rightarrow> nat \<Rightarrow> (int \<times> nat list) list \<Rightarrow> (int \<times> nat list) list" where
  "setdefault_append dev_id cb [] = [(dev_id, [cb])]"
| "setdefault_append dev_id cb ((k, cbs) # rest) =
     (if k = dev_id then (k, cbs @ [cb]) # rest else (k, cbs) # setdefault_append dev_id cb rest)"

definition add_callback :: "int \<Rightarrow> nat \<Rightarrow> PollThread \<Rightarrow> PollThread" where
  "add_callback dev_id cb P = P\<lparr>callbacks := setdefault_append dev_id cb (callbacks P)\<rparr>"

text \<open>
  \<open>SensapexDevice.__init__(devid, callback, n_axes)\<close> on the singleton session; \<open>cb\<close>
  names the observer \<open>self._change_callback\<close> of the new handle.
\<close>

definition SensapexDevice_init :: "nat \<Rightarrow> int \<Rightarrow> int option \<Rightarrow> 's UMP \<Rightarrow> 's UMP" where
  "SensapexDevice_init cb devid n_axes S =
     (let S1 = (case n_axes of None \<Rightarrow> S | Some n \<Rightarrow> S\<lparr>axis_counts := (axis_counts S)(devid \<mapsto> n)\<rparr>)
      in S1\<lparr>poller := add_callback devid cb (poller S1)\<rparr>)"

text \<open>
  The \<open>for\<close> loop of \<open>PollThread.run\<close> over the items of the snapshot \<open>snapshot\<close>. An
  invocation \<open>cb(dev_id, new_pos, old_pos)\<close> is appended to \<open>invoked\<close>. \<open>last_pos\<close> is read
  and not assigned.
\<close>

fun dispatch ::
  "'s ump_lib \<Rightarrow> (int \<times> nat list) list \<Rightarrow> (int \<times> nat list) list \<Rightarrow> (int \<rightharpoonup> int list) \<Rightarrow> 's UMP \<Rightarrow> ('s, unit) outcome" where
  "dispatch L snapshot [] last_pos S = (Inr (), S)"
| "dispatch L snapshot ((dev_id, dev_callbacks) # rest) last_pos S =
     (if length snapshot = 0 then dispatch L snapshot rest last_pos S
      else
        (case get_pos L dev_id (Some 20) S of
           (Inl e, S1) \<Rightarrow> (Inl e, S1)
         | (Inr new_pos, S1) \<Rightarrow>
             (let old_pos = last_pos dev_id;
                  S2 = (if Some new_pos \<noteq> old_pos then
                          S1\<lparr>poller := (poller S1)
                               \<lparr>invoked := invoked (poller S1) @ map (\<lambda>cb. (cb, dev_id, new_pos, old_pos)) dev_callbacks\<rparr>\<rparr>
                        else S1)
              in dispatch L snapshot rest last_pos S2)))"

text \<open>
  One pass through the body of the \<open>while\<close> loop of \<open>PollThread.run\<close> after the stop
  test; \<open>interval_ms\<close> is \<open>int(self.interval*1000)\<close>. An exception ends the pass (it is
  printed, and the thread sleeps one second).
\<close>

definition poll_iteration :: "'s ump_lib \<Rightarrow> int \<Rightarrow> (int \<rightharpoonup> int list) \<Rightarrow> 's UMP \<Rightarrow> 's UMP" where
  "poll_iteration L interval_ms last_pos S =
     (case call L ''ump_receive'' [c_int interval_ms] S of
        (Inl e, S1) \<Rightarrow> S1
      | (Inr _, S1) \<Rightarrow>
          (let snapshot = callbacks (poller S1)
           in snd (dispatch L snapshot snapshot last_pos S1)))"

text \<open>\<open>PollThread.run\<close>, with fuel for the \<open>while True\<close> loop; \<open>last_pos = {}\<close> at the start.\<close>

fun run_loop :: "nat \<Rightarrow> 's ump_lib \<Rightarrow> int \<Rightarrow> (int \<rightharpoonup> int list) \<Rightarrow> 's UMP \<Rightarrow> 's UMP option" where
  "run_loop 0 L interval_ms last_pos S = None"
| "run_loop (Suc n) L interval_ms last_pos S =
     (if stop_flag (poller S) then Some (S\<lparr>poller := (poller S)\<lparr>alive := False\<rparr>\<rparr>)
      else run_loop n L interval_ms last_pos (poll_iteration L interval_ms last_pos S))"

definition run :: "nat \<Rightarrow> 's ump_lib \<Rightarrow> int \<Rightarrow> 's UMP \<Rightarrow> 's UMP option" where
  "run fuel L interval_ms S = run_loop fuel L interval_ms Map.empty S"

section \<open>Observing the library calls\<close>

text \<open>
  A library that works as \<open>L\<close> does and keeps, next to the state of \<open>L\<close>, the list of the
  primitives invoked through \<open>call\<close>, each with its arguments.
\<close>

definition recording :: "'s ump_lib \<Rightarrow> ('s \<times> (string \<times> int list) list) ump_lib" where
  "recording L =
     \<lparr> lib_fn = (\<lambda>fn args (s, tr). case lib_fn L fn args s of (r, outs, s') \<Rightarrow> (r, outs, (s', tr @ [(fn, args)]))),
       ump_last_error = (\<lambda>(s, tr). ump_last_error L s),
       ump_last_os_errno = (\<lambda>(s, tr). ump_last_os_errno L s),
       ump_errorstr = ump_errorstr L,
       ump_is_busy_status = ump_is_busy_status L,
       last_device_received = (\<lambda>(s, tr). last_device_received L s),
       os_strerror = os_strerror L \<rparr>"

definition calls :: "('s \<times> (string \<times> int list) list) UMP \<Rightarrow> (string \<times> int list) list" where
  "calls S = (case h S of None \<Rightarrow> [] | Some (s, tr) \<Rightarrow> tr)"

section \<open>Python's floats: IEEE 754 doubles\<close>

text \<open>
  A double is a real number, an infinity or a NaN; the sign of a zero is not kept.
  \<open>to_double\<close> rounds a real number to the nearest double, ties to the even mantissa:
  53 bits of mantissa, the exponents from \<open>-1022\<close> (below it the subnormal doubles, of
  spacing \<open>2^-1074\<close>) to 1023, and an infinity from \<open>2^1024\<close> on.
\<close>

datatype double = Finite real | PInf | NInf | NaN

definition round_even :: "real \<Rightarrow> int" where
  "round_even x =
     (let f = \<lfloor>x\<rfloor>
      in if x - of_int f < 1 / 2 then f
         else if 1 / 2 < x - of_int f then f + 1
         else if even f then f else f + 1)"

definition pow2 :: "int \<Rightarrow> real" where
  "pow2 k = (if 0 \<le> k then 2 ^ nat k else 1 / 2 ^ nat (- k))"

definition exponent :: "real \<Rightarrow> int" where
  "exponent x = max (- 1022) \<lfloor>log 2 \<bar>x\<bar>\<rfloor>"

definition to_double :: "real \<Rightarrow> double" where
  "to_double x =
     (if x = 0 then Finite 0
      else
        (let u = pow2 (exponent x - 52);
             r = of_int (round_even (x / u)) * u
         in if pow2 1024 \<le> \<bar>r\<bar> then (if 0 < x then PInf else NInf) else Finite r))"

text \<open>The operations on doubles: the exact result, rounded; the usual rules at infinities and NaN.\<close>

definition positive :: "double \<Rightarrow> bool" where
  "positive a = (case a of Finite x \<Rightarrow> 0 < x | PInf \<Rightarrow> True | _ \<Rightarrow> False)"

definition dmul :: "double \<Rightarrow> double \<Rightarrow> double" where
  "dmul a b =
     (case (a, b) of
        (Finite x, Finite y) \<Rightarrow> to_double (x * y)
      | _ \<Rightarrow>
          if a = NaN \<or> b = NaN \<or> a = Finite 0 \<or> b = Finite 0 then NaN
          else if positive a = positive b then PInf else NInf)"

definition ddiv :: "double \<Rightarrow> double \<Rightarrow> double" where
  "ddiv a b =
     (case (a, b) of
        (Finite x, Finite y) \<Rightarrow>
          if y = 0 then (if x = 0 then NaN else if 0 < x then PInf else NInf)
          else to_double (x / y)
      | (Finite x, PInf) \<Rightarrow> Finite 0
      | (Finite x, NInf) \<Rightarrow> Finite 0
      | (PInf, Finite y) \<Rightarrow> if 0 \<le> y then PInf else NInf
      | (NInf, Finite y) \<Rightarrow> if 0 \<le> y then NInf else PInf
      | _ \<Rightarrow> NaN)"

definition dadd :: "double \<Rightarrow> double \<Rightarrow> double" where
  "dadd a b =
     (case (a, b) of
        (Finite x, Finite y) \<Rightarrow> to_double (x + y)
      | (NaN, _) \<Rightarrow> NaN
      | (_, NaN) \<Rightarrow> NaN
      | (PInf, NInf) \<Rightarrow> NaN
      | (NInf, PInf) \<Rightarrow> NaN
      | (PInf, _) \<Rightarrow> PInf
      | (_, PInf) \<Rightarrow> PInf
      | (NInf, _) \<Rightarrow> NInf
      | (_, NInf) \<Rightarrow> NInf)"

definition dsqrt :: "double \<Rightarrow> double" where
  "dsqrt a = (case a of Finite x \<Rightarrow> if x < 0 then NaN else to_double (sqrt x) | PInf \<Rightarrow> PInf | _ \<Rightarrow> NaN)"

definition dabs :: "double \<Rightarrow> double" where
  "dabs a = (case a of Finite x \<Rightarrow> Finite \<bar>x\<bar> | PInf \<Rightarrow> PInf | NInf \<Rightarrow> PInf | NaN \<Rightarrow> NaN)"

definition dgreater :: "double \<Rightarrow> int \<Rightarrow> bool" where
  "dgreater a n = (case a of Finite x \<Rightarrow> of_int n < x | PInf \<Rightarrow> True | _ \<Rightarrow> False)"

text \<open>\<open>int(x)\<close> raises on an infinity and on a NaN; \<open>float(n)\<close> raises when \<open>n\<close> is too large.\<close>

definition dint :: "double \<Rightarrow> int option" where
  "dint a = (case a of Finite x \<Rightarrow> Some (py_int x) | _ \<Rightarrow> None)"

definition dfloat_of :: "real \<Rightarrow> double option" where
  "dfloat_of r = (case to_double r of Finite x \<Rightarrow> Some (Finite x) | _ \<Rightarrow> None)"

text \<open>
  Modelled from the spec: \<open>np.linalg.norm\<close> is numpy's and not part of the source;
  the Euclidean norm, computed in doubles as the square root of the sum of the squares,
  from left to right.
\<close>

definition dnorm :: "double list \<Rightarrow> double" where
  "dnorm v = dsqrt (foldl dadd (Finite 0) (map (\<lambda>d. dmul d d) v))"

text \<open>The float arithmetic of Python on doubles.\<close>

definition ieee :: "double pyfloat" where
  "ieee = \<lparr> float_of = dfloat_of, fdiv = ddiv, fmul = dmul, fabs = dabs, fgreater = dgreater,
            int_of = dint, np_linalg_norm = dnorm \<rparr>"


section \<open>A scripted library for concrete runs\<close>

text \<open>
  A stand-in library: a queue of events that \<open>ump_receive\<close> consumes one at a time (a
  packet from a device with its new position, or a failure with an error code), the
  cached position and the axis count of each device, the devices whose position request
  fails with a given error code, and the last error.
\<close>

datatype event = Packet int "int list" | Fail int

record fake =
  queue :: "event list"
  positions :: "(int \<times> int list) list"
  axes :: "(int \<times> int) list"
  faults :: "(int \<times> int) list"
  last_err :: int
  last_dev :: "int option"

definition first_arg :: "int list \<Rightarrow> int" where
  "first_arg args = (case args of [] \<Rightarrow> 0 | a # _ \<Rightarrow> a)"

definition fake_fn :: "string \<Rightarrow> int list \<Rightarrow> fake \<Rightarrow> int \<times> int list \<times> fake" where
  "fake_fn fn args s =
     (if fn = ''ump_receive'' then
        (case queue s of
           [] \<Rightarrow> (0, [], s)
         | Packet d p # q \<Rightarrow>
             (1, [], s\<lparr>queue := q, positions := (d, p) # positions s, last_dev := Some d\<rparr>)
         | Fail c # q \<Rightarrow> (- 1, [], s\<lparr>queue := q, last_err := c\<rparr>))
      else if fn = ''ump_get_positions_ext'' then
        (case map_of (faults s) (first_arg args) of
           Some c \<Rightarrow> (- 1, [], s\<lparr>last_err := c\<rparr>)
         | None \<Rightarrow>
             (case map_of (positions s) (first_arg args) of
                None \<Rightarrow> (- 1, [], s\<lparr>last_err := - 5\<rparr>)
              | Some p \<Rightarrow> (0, p, s)))
      else if fn = ''ump_get_axis_count_ext'' then
        (case map_of (axes s) (first_arg args) of
           None \<Rightarrow> (- 1, [], s\<lparr>last_err := - 5\<rparr>)
         | Some n \<Rightarrow> (n, [], s))
      else (0, [], s))"

definition fake_lib :: "fake ump_lib" where
  "fake_lib = \<lparr> lib_fn = fake_fn,
                ump_last_error = last_err,
                ump_last_os_errno = (\<lambda>s. 11),
                ump_errorstr = (\<lambda>c. if c = - 3 then ''timeout'' else ''error''),
                ump_is_busy_status = (\<lambda>st. st),
                last_device_received = last_dev,
                os_strerror = (\<lambda>c. ''os error'') \<rparr>"

text \<open>A session as \<open>UMP.__init__\<close> leaves it (timeout 200, empty cache), opened on \<open>s\<close>.\<close>

definition new_session :: "'s \<Rightarrow> bool \<Rightarrow> bool \<Rightarrow> 's UMP" where
  "new_session s hasattr_axis start_poller =
     \<lparr> h = Some s, timeout = 200, has_axis_count = hasattr_axis, axis_counts = Map.empty,
       poller = \<lparr> callbacks = [], stop_flag = False, alive = start_poller, invoked = [] \<rparr> \<rparr>"

definition fake0 :: fake where
  "fake0 = \<lparr> queue = [], positions = [(1, [0, 0, 0, 0, 0])], axes = [(1, 3)], faults = [],
             last_err = 0, last_dev = None \<rparr>"

definition closed_session :: "fake UMP" where
  "closed_session = (new_session fake0 True False)\<lparr>h := None\<rparr>"

text \<open>The session on \<open>fake0\<close>, on the library that records its calls.\<close>

definition rec0 :: "(fake \<times> (string \<times> int list) list) UMP" where
  "rec0 = new_session (fake0, []) True False"

section \<open>Operations in sequence\<close>

text \<open>
  The operations a caller can apply to the session, directly or through a device handle
  (whose methods pass their \<open>devid\<close>), the construction of a further handle, and one
  iteration of the poller thread. \<open>exec_op\<close> runs one of them; the fuel bounds the loop
  of \<open>recv_all\<close>.
\<close>

datatype operation =
    List_devices int
  | Axis_count int
  | Call string "int list"
  | Set_timeout int
  | Get_pos int "int option"
  | Goto_pos int "int list" real bool
  | Is_busy int
  | Stop_all
  | Stop int
  | Select int
  | Set_active int bool
  | Set_pressure int int int
  | Get_pressure int int
  | Set_valve int int int
  | Get_valve int int
  | Set_custom_slow_speed int bool
  | Get_custom_slow_speed int
  | Recv
  | Recv_all
  | Close
  | New_device nat int "int option"
  | Poll int

datatype val =
    V_none
  | V_int int
  | V_bool bool
  | V_ints "int list"
  | V_devs "int option list"
  | V_dev "int option"
  | V_rval int "int list"

definition returning :: "('a \<Rightarrow> val) \<Rightarrow> ('s, 'a) outcome \<Rightarrow> ('s, val) outcome" where
  "returning f out = (case out of (Inl e, S) \<Rightarrow> (Inl e, S) | (Inr x, S) \<Rightarrow> (Inr (f x), S))"

fun exec_op ::
  "nat \<Rightarrow> 's ump_lib \<Rightarrow> 'f pyfloat \<Rightarrow> operation \<Rightarrow> 's UMP \<Rightarrow> ('s, val) outcome option" where
  "exec_op fuel L F (List_devices max_id) S = Some (returning V_ints (list_devices L max_id S))"
| "exec_op fuel L F (Axis_count dev) S = Some (returning V_int (axis_count L dev S))"
| "exec_op fuel L F (Call fn args) S = Some (returning (\<lambda>(r, outs). V_rval r outs) (call L fn args S))"
| "exec_op fuel L F (Set_timeout t) S = Some (returning (\<lambda>_. V_none) (set_timeout L t S))"
| "exec_op fuel L F (Get_pos dev tmo) S = Some (returning V_ints (get_pos L dev tmo S))"
| "exec_op fuel L F (Goto_pos dev pos speed simultaneous) S =
     Some (returning (\<lambda>_. V_none) (goto_pos L F dev pos speed simultaneous S))"
| "exec_op fuel L F (Is_busy dev) S = Some (returning V_bool (is_busy L dev S))"
| "exec_op fuel L F Stop_all S = Some (returning (\<lambda>_. V_none) (stop_all L S))"
| "exec_op fuel L F (Stop dev) S = Some (returning (\<lambda>_. V_none) (stop L dev S))"
| "exec_op fuel L F (Select dev) S = Some (returning (\<lambda>_. V_none) (select L dev S))"
| "exec_op fuel L F (Set_active dev active) S = Some (returning (\<lambda>_. V_none) (set_active L dev active S))"
| "exec_op fuel L F (Set_pressure dev channel v) S = Some (returning V_int (set_pressure L dev channel v S))"
| "exec_op fuel L F (Get_pressure dev channel) S = Some (returning V_int (get_pressure L dev channel S))"
| "exec_op fuel L F (Set_valve dev channel v) S = Some (returning V_int (set_valve L dev channel v S))"
| "exec_op fuel L F (Get_valve dev channel) S = Some (returning V_int (get_valve L dev channel S))"
| "exec_op fuel L F (Set_custom_slow_speed dev enabled) S =
     Some (returning V_int (set_custom_slow_speed L dev enabled S))"
| "exec_op fuel L F (Get_custom_slow_speed dev) S = Some (returning V_int (get_custom_slow_speed L dev S))"
| "exec_op fuel L F Recv S = Some (returning V_dev (recv L S))"
| "exec_op fuel L F Recv_all S = map_option (returning V_devs) (recv_all fuel L S)"
| "exec_op fuel L F Close S = Some (Inr V_none, close S)"
| "exec_op fuel L F (New_device cb devid n_axes) S = Some (Inr V_none, SensapexDevice_init cb devid n_axes S)"
| "exec_op fuel L F (Poll interval_ms) S = Some (Inr V_none, poll_iteration L interval_ms Map.empty S)"

text \<open>
  A sequence of operations, each run on the state the one before left, whether it
  returned or raised; \<open>None\<close> when one of them does not end within the fuel.
\<close>

fun run_ops ::
  "nat \<Rightarrow> 's ump_lib \<Rightarrow> 'f pyfloat \<Rightarrow> operation list \<Rightarrow> 's UMP \<Rightarrow> 's UMP option" where
  "run_ops fuel L F [] S = Some S"
| "run_ops fuel L F (op # ops) S =
     (case exec_op fuel L F op S of
        None \<Rightarrow> None
      | Some (r, S') \<Rightarrow> run_ops fuel L F ops S')"

text \<open>
  The operations that begin with a request through \<open>call\<close>, or are \<open>call\<close> itself.
\<close>

fun transport_op :: "operation \<Rightarrow> bool" where
  "transport_op (Axis_count dev) = False"
| "transport_op Close = False"
| "transport_op (New_device cb devid n_axes) = False"
| "transport_op (Poll interval_ms) = False"
| "transport_op _ = True"

text \<open>Whether an operation is the construction of a handle that overrides the axis count of \<open>dev\<close>.\<close>

fun overrides :: "int \<Rightarrow> operation \<Rightarrow> bool" where
  "overrides dev (New_device cb devid (Some n)) = (devid = dev)"
| "overrides dev _ = False"

section \<open>Sessions and predicates for the properties\<close>

text \<open>A session in which the position request of device 2 and the next receive fail with code \<open>-7\<close>.\<close>

definition faulty_session :: "fake UMP" where
  "faulty_session = new_session (fake0\<lparr>faults := [(2, - 7)], queue := [Fail (- 7)]\<rparr>) True False"

text \<open>
  A float arithmetic for runs in which no float is computed: every conversion raises.
\<close>

definition no_floats :: "unit pyfloat" where
  "no_floats = \<lparr> float_of = (\<lambda>r. None), fdiv = (\<lambda>a b. ()), fmul = (\<lambda>a b. ()), fabs = (\<lambda>a. ()),
                 fgreater = (\<lambda>a n. False), int_of = (\<lambda>a. None), np_linalg_norm = (\<lambda>v. ()) \<rparr>"

text \<open>A session whose library has the events \<open>evs\<close> pending.\<close>

definition packets_session :: "event list \<Rightarrow> fake UMP" where
  "packets_session evs = new_session (fake0\<lparr>queue := evs\<rparr>) True False"

text \<open>A session on a library without \<open>ump_get_axis_count_ext\<close>, its poller started.\<close>

definition old_lib_session :: "fake UMP" where
  "old_lib_session = new_session fake0 False True"

text \<open>
  The axis count of \<open>dev\<close> is overridden by \<open>n\<close>: the library has the axis-count query
  and the cache \<open>_axis_counts\<close> holds \<open>n\<close> for \<open>dev\<close>.
\<close>

definition overridden :: "int \<Rightarrow> int \<Rightarrow> 's UMP \<Rightarrow> bool" where
  "overridden dev n S \<longleftrightarrow> has_axis_count S \<and> axis_counts S dev = Some n"

text \<open>
  A session with the devices 1 and 2, an observer 10 for device 1 and an observer 20 for
  device 2, the poller started. Two packets from device 1 are pending: the first repeats
  its position \<open>[0,0,0]\<close>, the second moves it to \<open>[0,0,5]\<close>.
\<close>

definition observed_session :: "fake UMP" where
  "observed_session =
     SensapexDevice_init 20 2 None
       (SensapexDevice_init 10 1 None
          (new_session
             (fake0\<lparr>positions := [(1, [0, 0, 0, 0, 0]), (2, [7, 7, 7, 0, 0])],
                    axes := [(1, 3), (2, 3)],
                    queue := [Packet 1 [0, 0, 0, 0, 0], Packet 1 [0, 0, 5, 0, 0]]\<rparr>)
             True True))"

text \<open>Every invocation recorded so far passed \<open>None\<close> as the old position.\<close>

definition old_pos_absent :: "'s UMP \<Rightarrow> bool" where
  "old_pos_absent S = list_all (\<lambda>(cb, dev_id, new_pos, old_pos). old_pos = None) (invoked (poller S))"

section \<open>Properties of \<open>call\<close>\<close>

text \<open>
  Claim C8. \<open>call\<close> raises the not-open error on a session without handle. With a
  handle, a negative return value of the primitive makes it read the last error code:
  code \<open>-1\<close> raises the error built from the OS errno, any other code raises the error
  that carries the code, its error string and the name and arguments of the failing call.
  A return value that is not negative is returned as it is, and nothing is raised.
\<close>

theorem call_outcomes:
  "(h S = None \<longrightarrow> fst (call L fn args S) = Inl (TypeError ''UMP is not open.''))
   \<and> (\<forall>s rval outs s'. h S = Some s \<and> lib_fn L fn args s = (rval, outs, s') \<longrightarrow>
        (rval < 0 \<and> ump_last_error L s' = - 1 \<longrightarrow>
           fst (call L fn args S) =
             Inl (UMPError (UMP_OS_Error (ump_last_os_errno L s') (os_strerror L (ump_last_os_errno L s')))
                    None (Some (ump_last_os_errno L s'))))
      \<and> (rval < 0 \<and> ump_last_error L s' \<noteq> - 1 \<longrightarrow>
           fst (call L fn args S) =
             Inl (UMPError (UMP_Error_From (ump_last_error L s') (ump_errorstr L (ump_last_error L s')) fn args)
                    (Some (ump_last_error L s')) None))
      \<and> (0 \<le> rval \<longrightarrow> (\<exists>S'. call L fn args S = (Inr (rval, outs), S'))))"
  by (simp add: call_def Let_def)

theorem call_outcomes_witness:
  "h closed_session = None
   \<and> fst (call fake_lib ''ump_receive'' [0] closed_session) = Inl (TypeError ''UMP is not open.'')
   \<and> fst (call fake_lib ''ump_receive'' [0] (new_session (fake0\<lparr>queue := [Fail (- 1)]\<rparr>) True False))
       = Inl (UMPError (UMP_OS_Error 11 ''os error'') None (Some 11))
   \<and> fst (call fake_lib ''ump_receive'' [0] (new_session (fake0\<lparr>queue := [Fail (- 7)]\<rparr>) True False))
       = Inl (UMPError (UMP_Error_From (- 7) ''error'' ''ump_receive'' [0]) (Some (- 7)) None)
   \<and> fst (call fake_lib ''ump_receive'' [0] (new_session (fake0\<lparr>queue := [Packet 3 [1, 2, 3]]\<rparr>) True False))
       = Inr (1, [])"
  using call_outcomes [of closed_session fake_lib "''ump_receive''" "[0]"]
        call_outcomes [of "new_session (fake0\<lparr>queue := [Fail (- 1)]\<rparr>) True False" fake_lib "''ump_receive''" "[0]"]
        call_outcomes [of "new_session (fake0\<lparr>queue := [Fail (- 7)]\<rparr>) True False" fake_lib "''ump_receive''" "[0]"]
        call_outcomes [of "new_session (fake0\<lparr>queue := [Packet 3 [1, 2, 3]]\<rparr>) True False" fake_lib "''ump_receive''" "[0]"]
  by (simp add: call_def closed_session_def new_session_def fake0_def fake_lib_def fake_fn_def first_arg_def)

section \<open>Properties of the speed planning in \<open>goto_pos\<close>\<close>

lemma pow2_powr: "pow2 k = 2 powr (of_int k)"
  by (simp add: pow2_def powr_int inverse_eq_divide)

lemma pow2_pos: "0 < pow2 k"
  by (simp add: pow2_powr)



lemma round_even_of_int: "round_even (of_int m) = m"
  by (simp add: round_even_def)

lemma pow2_nonpos: "k \<le> 0 \<Longrightarrow> pow2 k = 1 / 2 ^ nat (- k)"
  by (cases "k = 0") (simp_all add: pow2_def)

lemma to_double_Ints:
  assumes "x \<in> \<int>" and "\<bar>x\<bar> < 9007199254740992"
  shows "to_double x = Finite x"
proof (cases "x = 0")
  case True
  then show ?thesis by (simp add: to_double_def)
next
  case False
  from assms(1) obtain n where n: "x = of_int n" by (auto elim: Ints_cases)
  with False have "n \<noteq> 0" by auto
  then have one: "1 \<le> \<bar>x\<bar>" unfolding n by (simp flip: of_int_abs)
  define e where "e = \<lfloor>log 2 \<bar>x\<bar>\<rfloor>"
  have e0: "0 \<le> e"
    unfolding e_def using one by simp
  have "log 2 \<bar>x\<bar> < 53"
    using one assms(2) by (simp add: log_less_iff)
  then have e52: "e \<le> 52"
    unfolding e_def by linarith
  have ex: "exponent x = e"
    using e0 by (simp add: exponent_def e_def)
  define m where "m = nat (52 - e)"
  have u: "pow2 (e - 52) = 1 / 2 ^ m"
    using e52 by (simp add: pow2_nonpos m_def)
  have q: "x / pow2 (e - 52) = of_int (n * 2 ^ m)"
    by (simp add: u n)
  have r: "of_int (round_even (x / pow2 (e - 52))) * pow2 (e - 52) = x"
    unfolding q round_even_of_int by (simp add: u n)
  have "\<bar>x\<bar> < pow2 1024"
  proof -
    have "(9007199254740992::real) = 2 ^ 53" by simp
    also have "\<dots> \<le> 2 ^ 1024" by (rule power_increasing) simp_all
    finally show ?thesis using assms(2) by (simp add: pow2_def)
  qed
  then show ?thesis
    using False by (simp add: to_double_def ex r Let_def)
qed


lemma sqrt_10000: "sqrt 10000 = 100"
proof -
  have "sqrt (100 * 100) = \<bar>100::real\<bar>" by (rule real_sqrt_abs2)
  then show ?thesis by simp
qed


lemmas ieee_eval = ieee_def dfloat_of_def ddiv_def dmul_def dadd_def dsqrt_def dabs_def dgreater_def
  dint_def dnorm_def goto_diff_def goto_dist_def goto_speed_def goto_pos_speeds_def goto_pos_args_def
  axis_speed_def num_float_def num_int_def to_double_Ints Let_def

text \<open>
  Claim C3, as the code has it. For the current position \<open>[0,0,0]\<close>, the target
  \<open>[100,0,0]\<close> and the nominal speed 10, \<open>goto_pos\<close> derives \<open>diff = [100,0,0]\<close>,
  \<open>dist = 100\<close> and the speeds \<open>[32,32,32,0]\<close>: the floor 32 on each of the three axes
  of the device, also on those that do not move, and 0 on the padding axis only. Every
  operation on doubles is exact at these values.
\<close>

theorem goto_pos_plan_example:
  "goto_diff ieee ([100, 0, 0] @ replicate (4 - length [100, 0, 0 :: int]) 0) [0, 0, 0]
     = Some [Finite 100, Finite 0, Finite 0]
   \<and> goto_dist ieee [Finite 100, Finite 0, Finite 0] = PyFloat (Finite 100)
   \<and> goto_pos_speeds ieee [100, 0, 0] 10 [0, 0, 0] = Some [PyInt 32, PyInt 32, PyInt 32, PyInt 0]
   \<and> goto_pos_args ieee 1 [100, 0, 0] 10 1 [0, 0, 0] = Some [1, 100, 0, 0, 0, 32, 32, 32, 0, 1]"
  by (simp add: ieee_eval sqrt_10000 c_int_def)

text \<open>
  The speeds that claim C3 states, \<open>[32,0,0,0]\<close>, are not the ones \<open>goto_pos\<close> derives
  for that move.
\<close>

theorem goto_pos_plan_example_not_zero:
  "goto_pos_speeds ieee [100, 0, 0] 10 [0, 0, 0] \<noteq> Some [PyInt 32, PyInt 0, PyInt 0, PyInt 0]"
  by (simp add: ieee_eval sqrt_10000)

















section \<open>Properties of \<open>get_pos\<close> and \<open>axis_count\<close>\<close>

lemma c_int_0: "c_int 0 = 0" by (simp add: c_int_def)

lemma call_frame:
  "call L fn args S = (r, S') \<Longrightarrow> S' = S\<lparr>h := h S'\<rparr>"
  by (auto simp: call_def Let_def split: option.splits prod.splits if_splits)

lemma call_recording_ok:
  "h S = Some (s, tr) \<Longrightarrow> lib_fn L fn args s = (r, outs, s') \<Longrightarrow> 0 \<le> r \<Longrightarrow>
   call (recording L) fn args S = (Inr (r, outs), S\<lparr>h := Some (s', tr @ [(fn, args)])\<rparr>)"
  by (simp add: call_def recording_def Let_def)

lemma call_recording_err:
  "h S = Some (s, tr) \<Longrightarrow> lib_fn L fn args s = (r, outs, s') \<Longrightarrow> r < 0 \<Longrightarrow>
   \<exists>e. call (recording L) fn args S = (Inl e, S\<lparr>h := Some (s', tr @ [(fn, args)])\<rparr>)"
  by (simp add: call_def recording_def Let_def)

lemma length_xyzwe: "length (xyzwe outs) = 5"
  by (simp add: xyzwe_def)

lemma length_py_slice_to: "0 \<le> n \<Longrightarrow> n \<le> int (length xs) \<Longrightarrow> int (length (py_slice_to xs n)) = n"
  by (simp add: py_slice_to_def)

lemma axis_count_stable:
  "axis_count L dev S1 = (Inr n, S2) \<Longrightarrow> axis_count L dev S2 = (Inr n, S2)"
proof -
  assume a: "axis_count L dev S1 = (Inr n, S2)"
  show ?thesis
  proof (cases "has_axis_count S1 \<and> axis_counts S1 dev = None")
    case True
    obtain r S' where c: "call L ''ump_get_axis_count_ext'' [dev] S1 = (r, S')"
      by (cases "call L ''ump_get_axis_count_ext'' [dev] S1") auto
    from call_frame [OF c] have "has_axis_count S' = has_axis_count S1"
      by (metis UMP.select_convs(3) UMP.surjective UMP.update_convs(1))
    with a c True show ?thesis
      by (auto simp: axis_count_def split: sum.splits)
  next
    case False
    with a show ?thesis
      by (auto simp: axis_count_def split: option.splits if_splits)
  qed
qed

lemma calls_axis_count:
  assumes "h S1 = Some (s1, tr1)"
  shows "calls (snd (axis_count (recording L) dev S1)) =
           tr1 @ (if has_axis_count S1 \<and> axis_counts S1 dev = None
                  then [(''ump_get_axis_count_ext'', [dev])] else [])"
proof (cases "has_axis_count S1 \<and> axis_counts S1 dev = None")
  case True
  obtain r2 outs2 s2 where q: "lib_fn L ''ump_get_axis_count_ext'' [dev] s1 = (r2, outs2, s2)"
    by (cases "lib_fn L ''ump_get_axis_count_ext'' [dev] s1") auto
  show ?thesis
  proof (cases "r2 < 0")
    case neg: True
    from call_recording_err [OF assms q neg] True show ?thesis
      by (auto simp: axis_count_def calls_def)
  next
    case False
    then have "0 \<le> r2" by simp
    from call_recording_ok [OF assms q this] True show ?thesis
      by (simp add: axis_count_def calls_def)
  qed
next
  case False
  with assms show ?thesis
    by (auto simp: axis_count_def calls_def split: option.splits)
qed

lemma get_pos_calls_and_result:
  assumes "h S = Some (s, tr)"
  shows "calls (snd (get_pos (recording L) dev (Some 0) S)) =
           tr @ [(''ump_get_positions_ext'', [c_int dev, 0])] @
             (if 0 \<le> fst (lib_fn L ''ump_get_positions_ext'' [c_int dev, 0] s)
                 \<and> has_axis_count S \<and> axis_counts S dev = None
              then [(''ump_get_axis_count_ext'', [dev])] else [])
         \<and> (\<forall>xs S'. get_pos (recording L) dev (Some 0) S = (Inr xs, S') \<longrightarrow>
               (\<exists>n. axis_count (recording L) dev S' = (Inr n, S')
                  \<and> xs = py_slice_to (xyzwe (fst (snd (lib_fn L ''ump_get_positions_ext'' [c_int dev, 0] s)))) n
                  \<and> (0 \<le> n \<and> n \<le> 5 \<longrightarrow> int (length xs) = n)))"
proof -
  obtain r outs s1 where p: "lib_fn L ''ump_get_positions_ext'' [c_int dev, 0] s = (r, outs, s1)"
    by (cases "lib_fn L ''ump_get_positions_ext'' [c_int dev, 0] s") auto
  let ?S1 = "S\<lparr>h := Some (s1, tr @ [(''ump_get_positions_ext'', [c_int dev, 0])])\<rparr>"
  show ?thesis
  proof (cases "r < 0")
    case True
    with call_recording_err [OF assms p]
    obtain e where "call (recording L) ''ump_get_positions_ext'' [c_int dev, 0] S = (Inl e, ?S1)"
      by blast
    then show ?thesis using True p
      by (simp add: get_pos_def c_int_0 calls_def)
  next
    case False
    with call_recording_ok [OF assms p]
    have c: "call (recording L) ''ump_get_positions_ext'' [c_int dev, 0] S = (Inr (r, outs), ?S1)"
      by simp
    have hS1: "h ?S1 = Some (s1, tr @ [(''ump_get_positions_ext'', [c_int dev, 0])])" by simp
    obtain ra S2 where ac: "axis_count (recording L) dev ?S1 = (ra, S2)"
      by (cases "axis_count (recording L) dev ?S1") auto
    have g: "get_pos (recording L) dev (Some 0) S =
               (case ra of Inl e \<Rightarrow> Inl e | Inr n_axes \<Rightarrow> Inr (py_slice_to (xyzwe outs) n_axes), S2)"
      using c ac by (simp add: get_pos_def c_int_0 split: sum.splits)
    have tr2: "calls S2 = tr @ [(''ump_get_positions_ext'', [c_int dev, 0])] @
                 (if has_axis_count S \<and> axis_counts S dev = None
                  then [(''ump_get_axis_count_ext'', [dev])] else [])"
      using calls_axis_count [OF hS1, of L dev] ac by simp
    have first: "calls (snd (get_pos (recording L) dev (Some 0) S)) =
           tr @ [(''ump_get_positions_ext'', [c_int dev, 0])] @
             (if 0 \<le> fst (lib_fn L ''ump_get_positions_ext'' [c_int dev, 0] s)
                 \<and> has_axis_count S \<and> axis_counts S dev = None
              then [(''ump_get_axis_count_ext'', [dev])] else [])"
      using g tr2 False p by simp
    have second: "\<exists>n. axis_count (recording L) dev S' = (Inr n, S')
                  \<and> xs = py_slice_to (xyzwe (fst (snd (lib_fn L ''ump_get_positions_ext'' [c_int dev, 0] s)))) n
                  \<and> (0 \<le> n \<and> n \<le> 5 \<longrightarrow> int (length xs) = n)"
      if "get_pos (recording L) dev (Some 0) S = (Inr xs, S')" for xs S'
    proof -
      from that g obtain n where n: "ra = Inr n" "xs = py_slice_to (xyzwe outs) n" "S' = S2"
        by (cases ra) auto
      from ac n have "axis_count (recording L) dev S' = (Inr n, S')"
        by (simp add: axis_count_stable)
      then show ?thesis using n p
        by (auto simp: length_py_slice_to length_xyzwe)
    qed
    from first second show ?thesis by blast
  qed
qed

lemma rec0_h: "h rec0 = Some (fake0, [])" by (simp add: rec0_def new_session_def)

lemma rec0_get_pos:
  "get_pos (recording fake_lib) 1 (Some 0) rec0 =
     (Inr [0, 0, 0],
      rec0\<lparr>h := Some (fake0, [(''ump_get_positions_ext'', [1, 0]), (''ump_get_axis_count_ext'', [1])]),
           axis_counts := (axis_counts rec0)(1 \<mapsto> 3)\<rparr>)"
  by (simp add: get_pos_def call_def axis_count_def recording_def rec0_def new_session_def
        fake_lib_def fake_fn_def first_arg_def fake0_def c_int_def xyzwe_def py_slice_to_def)

lemma call_recording_error:
  "h S = Some (s, tr) \<Longrightarrow> lib_fn L fn args s = (r, outs, s') \<Longrightarrow> r < 0 \<Longrightarrow>
   call (recording L) fn args S = (Inl (call_error L fn args s'), S\<lparr>h := Some (s', tr @ [(fn, args)])\<rparr>)"
  by (simp add: call_def recording_def call_error_def Let_def)

text \<open>
  Claim C2, as the code has it. On an open session \<open>get_pos\<close> with timeout 0 does call
  the library: it issues one request through \<open>call\<close>, \<open>ump_get_positions_ext\<close> with the
  timeout argument 0, and then \<open>ump_get_axis_count_ext\<close> once when that request
  succeeded, the library has the axis-count query and no count is cached for the
  device; it issues no other request. When a request returns a negative value, \<open>call\<close>
  reads the last error code and its error string from the library (and the OS errno
  when the code is \<open>-1\<close>), and \<open>get_pos\<close> raises the error built from them. When \<open>get_pos\<close>
  returns, the result is the five values written by the library cut to
  \<open>axis_count(dev)\<close> entries, so its length is the axis count whenever that is between
  0 and 5.
\<close>

theorem get_pos_timeout0_calls:
  assumes "h S = Some (s, tr)"
  shows "calls (snd (get_pos (recording L) dev (Some 0) S)) =
           tr @ [(''ump_get_positions_ext'', [c_int dev, 0])] @
             (if 0 \<le> fst (lib_fn L ''ump_get_positions_ext'' [c_int dev, 0] s)
                 \<and> has_axis_count S \<and> axis_counts S dev = None
              then [(''ump_get_axis_count_ext'', [dev])] else [])
         \<and> (\<forall>xs S'. get_pos (recording L) dev (Some 0) S = (Inr xs, S') \<longrightarrow>
               (\<exists>n. axis_count (recording L) dev S' = (Inr n, S')
                  \<and> xs = py_slice_to (xyzwe (fst (snd (lib_fn L ''ump_get_positions_ext'' [c_int dev, 0] s)))) n
                  \<and> (0 \<le> n \<and> n \<le> 5 \<longrightarrow> int (length xs) = n)))
         \<and> (\<forall>r outs s1. lib_fn L ''ump_get_positions_ext'' [c_int dev, 0] s = (r, outs, s1) \<and> r < 0 \<longrightarrow>
               fst (get_pos (recording L) dev (Some 0) S)
                 = Inl (call_error L ''ump_get_positions_ext'' [c_int dev, 0] s1))
         \<and> (\<forall>r outs s1 r2 outs2 s2.
               lib_fn L ''ump_get_positions_ext'' [c_int dev, 0] s = (r, outs, s1) \<and> 0 \<le> r
               \<and> has_axis_count S \<and> axis_counts S dev = None
               \<and> lib_fn L ''ump_get_axis_count_ext'' [dev] s1 = (r2, outs2, s2) \<and> r2 < 0 \<longrightarrow>
               fst (get_pos (recording L) dev (Some 0) S)
                 = Inl (call_error L ''ump_get_axis_count_ext'' [dev] s2))"
proof -
  have 3: "fst (get_pos (recording L) dev (Some 0) S)
                 = Inl (call_error L ''ump_get_positions_ext'' [c_int dev, 0] s1)"
    if "lib_fn L ''ump_get_positions_ext'' [c_int dev, 0] s = (r, outs, s1) \<and> r < 0" for r outs s1
  proof -
    from that call_recording_error [OF assms, of L "''ump_get_positions_ext''" "[c_int dev, 0]" r outs s1]
    show ?thesis by (simp add: get_pos_def c_int_0)
  qed
  have 4: "fst (get_pos (recording L) dev (Some 0) S)
                 = Inl (call_error L ''ump_get_axis_count_ext'' [dev] s2)"
    if a: "lib_fn L ''ump_get_positions_ext'' [c_int dev, 0] s = (r, outs, s1) \<and> 0 \<le> r
               \<and> has_axis_count S \<and> axis_counts S dev = None
               \<and> lib_fn L ''ump_get_axis_count_ext'' [dev] s1 = (r2, outs2, s2) \<and> r2 < 0"
    for r outs s1 r2 outs2 s2
  proof -
    let ?S1 = "S\<lparr>h := Some (s1, tr @ [(''ump_get_positions_ext'', [c_int dev, 0])])\<rparr>"
    from a call_recording_ok [OF assms, of L "''ump_get_positions_ext''" "[c_int dev, 0]" r outs s1]
    have c: "call (recording L) ''ump_get_positions_ext'' [c_int dev, 0] S = (Inr (r, outs), ?S1)"
      by simp
    have hS1: "h ?S1 = Some (s1, tr @ [(''ump_get_positions_ext'', [c_int dev, 0])])" by simp
    from a call_recording_error [OF hS1, of L "''ump_get_axis_count_ext''" "[dev]" r2 outs2 s2]
    obtain S2 where "call (recording L) ''ump_get_axis_count_ext'' [dev] ?S1
        = (Inl (call_error L ''ump_get_axis_count_ext'' [dev] s2), S2)"
      by simp
    with a c show ?thesis
      by (simp add: get_pos_def c_int_0 axis_count_def)
  qed
  from get_pos_calls_and_result [OF assms, of L dev] 3 4 show ?thesis by blast
qed

text \<open>
  Claim C2 fails as stated: on the recording library, \<open>get_pos\<close> with timeout 0 of
  device 1 returns \<open>[0,0,0]\<close> and two library calls have been made.
\<close>

theorem get_pos_timeout0_calls_library:
  "fst (get_pos (recording fake_lib) 1 (Some 0) rec0) = Inr [0, 0, 0]
   \<and> calls rec0 = []
   \<and> calls (snd (get_pos (recording fake_lib) 1 (Some 0) rec0))
       = [(''ump_get_positions_ext'', [1, 0]), (''ump_get_axis_count_ext'', [1])]
   \<and> length (calls (snd (get_pos (recording fake_lib) 1 (Some 0) rec0))) \<noteq> length (calls rec0)"
  by (simp add: rec0_get_pos calls_def rec0_h)

theorem get_pos_timeout0_calls_witness:
  "h rec0 = Some (fake0, [])
   \<and> calls (snd (get_pos (recording fake_lib) 1 (Some 0) rec0))
       = [(''ump_get_positions_ext'', [c_int 1, 0]), (''ump_get_axis_count_ext'', [1])]
   \<and> (\<exists>n. fst (get_pos (recording fake_lib) 1 (Some 0) rec0) = Inr (py_slice_to (xyzwe [0, 0, 0, 0, 0]) n)
          \<and> 0 \<le> n \<and> n \<le> 5 \<and> int (length (py_slice_to (xyzwe [0, 0, 0, 0, 0 :: int]) n)) = n)
   \<and> lib_fn fake_lib ''ump_get_positions_ext'' [c_int 9, 0] fake0 = (- 1, [], fake0\<lparr>last_err := - 5\<rparr>)
   \<and> fst (get_pos (recording fake_lib) 9 (Some 0) rec0)
       = Inl (UMPError (UMP_Error_From (- 5) ''error'' ''ump_get_positions_ext'' [9, 0]) (Some (- 5)) None)"
proof -
  note t = get_pos_timeout0_calls [OF rec0_h, of fake_lib 1]
  have p: "lib_fn fake_lib ''ump_get_positions_ext'' [c_int 1, 0] fake0 = (0, [0, 0, 0, 0, 0], fake0)"
    by (simp add: fake_lib_def fake_fn_def first_arg_def fake0_def c_int_def)
  have m: "has_axis_count rec0 \<and> axis_counts rec0 1 = None"
    by (simp add: rec0_def new_session_def)
  from t [THEN conjunct1] p m have a: "calls (snd (get_pos (recording fake_lib) 1 (Some 0) rec0))
       = [(''ump_get_positions_ext'', [c_int 1, 0]), (''ump_get_axis_count_ext'', [1])]"
    by simp
  from t [THEN conjunct2, THEN conjunct1, rule_format, OF rec0_get_pos] p
  obtain n where n: "[0, 0, 0] = py_slice_to (xyzwe [0, 0, 0, 0, 0 :: int]) n"
      "0 \<le> n \<and> n \<le> 5 \<longrightarrow> int (length [0, 0, 0 :: int]) = n"
      "axis_count (recording fake_lib) 1
         (rec0\<lparr>h := Some (fake0, [(''ump_get_positions_ext'', [1, 0]), (''ump_get_axis_count_ext'', [1])]),
               axis_counts := (axis_counts rec0)(1 \<mapsto> 3)\<rparr>) =
       (Inr n, rec0\<lparr>h := Some (fake0, [(''ump_get_positions_ext'', [1, 0]), (''ump_get_axis_count_ext'', [1])]),
               axis_counts := (axis_counts rec0)(1 \<mapsto> 3)\<rparr>)"
    by auto
  from n(3) have "n = 3" by (simp add: axis_count_def rec0_def new_session_def)
  with n(1) rec0_get_pos have b: "fst (get_pos (recording fake_lib) 1 (Some 0) rec0) = Inr (py_slice_to (xyzwe [0, 0, 0, 0, 0]) n)
          \<and> 0 \<le> n \<and> n \<le> 5 \<and> int (length (py_slice_to (xyzwe [0, 0, 0, 0, 0 :: int]) n)) = n"
    by (simp add: xyzwe_def py_slice_to_def)
  have q: "lib_fn fake_lib ''ump_get_positions_ext'' [c_int 9, 0] fake0 = (- 1, [], fake0\<lparr>last_err := - 5\<rparr>)"
    by (simp add: fake_lib_def fake_fn_def first_arg_def fake0_def c_int_def)
  then have "lib_fn fake_lib ''ump_get_positions_ext'' [c_int 9, 0] fake0 = (- 1, [], fake0\<lparr>last_err := - 5\<rparr>)
      \<and> (- 1 :: int) < 0"
    by simp
  from get_pos_timeout0_calls [OF rec0_h, of fake_lib 9, THEN conjunct2, THEN conjunct2, THEN conjunct1, rule_format, OF this]
  have c: "fst (get_pos (recording fake_lib) 9 (Some 0) rec0)
       = Inl (UMPError (UMP_Error_From (- 5) ''error'' ''ump_get_positions_ext'' [9, 0]) (Some (- 5)) None)"
    by (simp add: call_error_def fake_lib_def c_int_def)
  from rec0_h a b q c show ?thesis by blast
qed

section \<open>The stored timeout across \<open>list_devices\<close> and \<open>recv_all\<close>\<close>

lemma call_timeout: "timeout (snd (call L fn args S)) = timeout S"
  by (simp add: call_def Let_def split: option.splits prod.splits)

lemma set_timeout_timeout: "timeout (snd (set_timeout L t S)) = t"
proof -
  have "snd (set_timeout L t S) = snd (call L ''ump_set_timeout'' [t] (S\<lparr>timeout := t\<rparr>))"
    by (simp add: set_timeout_def split: prod.splits sum.splits)
  then show ?thesis by (simp add: call_timeout)
qed

lemma finally_set_timeout_timeout: "timeout (snd (finally_set_timeout L old body)) = old"
proof -
  obtain res S2 where b: "body = (res, S2)" by (cases body) auto
  have "snd (finally_set_timeout L old body) = snd (set_timeout L old S2)"
    by (simp add: finally_set_timeout_def b split: prod.splits sum.splits)
  then show ?thesis by (simp add: set_timeout_timeout)
qed

text \<open>
  Claim C6, as the code has it. When the call that lowers the timeout at the start of
  \<open>list_devices\<close> or \<open>recv_all\<close> succeeds, the stored timeout after the operation,
  whether it returned or raised, also when an unexpected error ended it partway, is the
  value it had before.
\<close>

theorem timeout_restored:
  "(fst (set_timeout L 20 S) = Inr () \<longrightarrow> timeout (snd (list_devices L max_id S)) = timeout S)
   \<and> (\<forall>r S'. fst (set_timeout L 0 S) = Inr () \<and> recv_all fuel L S = Some (r, S') \<longrightarrow> timeout S' = timeout S)"
proof (intro conjI allI impI)
  assume "fst (set_timeout L 20 S) = Inr ()"
  then obtain S1 where "set_timeout L 20 S = (Inr (), S1)"
    by (cases "set_timeout L 20 S") auto
  then show "timeout (snd (list_devices L max_id S)) = timeout S"
    by (simp add: list_devices_def finally_set_timeout_timeout)
next
  fix r S'
  assume a: "fst (set_timeout L 0 S) = Inr () \<and> recv_all fuel L S = Some (r, S')"
  then obtain S1 where s: "set_timeout L 0 S = (Inr (), S1)"
    by (cases "set_timeout L 0 S") auto
  with a obtain body where "recv_all_loop fuel L None [] S1 = Some body"
    and "(r, S') = finally_set_timeout L (timeout S) body"
    by (auto simp: recv_all_def)
  then have "S' = snd (finally_set_timeout L (timeout S) body)"
    by (metis snd_conv)
  then show "timeout S' = timeout S"
    by (simp add: finally_set_timeout_timeout)
qed

lemma call_closed: "h S = None \<Longrightarrow> call L fn args S = (Inl (TypeError ''UMP is not open.''), S)"
  by (simp add: call_def)

lemma closed_h: "h closed_session = None" by (simp add: closed_session_def)

text \<open>
  Claim C6 fails as stated: \<open>set_timeout\<close> stands before the \<open>try\<close>, so on a session
  that is not open both operations raise and leave the stored timeout changed.
\<close>

theorem timeout_not_restored_when_closed:
  "timeout closed_session = 200
   \<and> list_devices fake_lib 5 closed_session = (Inl (TypeError ''UMP is not open.''), closed_session\<lparr>timeout := 20\<rparr>)
   \<and> timeout (snd (list_devices fake_lib 5 closed_session)) \<noteq> timeout closed_session
   \<and> recv_all 5 fake_lib closed_session = Some (Inl (TypeError ''UMP is not open.''), closed_session\<lparr>timeout := 0\<rparr>)"
  by (simp add: list_devices_def recv_all_def set_timeout_def call_closed closed_h)
     (simp add: closed_session_def new_session_def)

lemma upt5: "map int [0 ..< nat (min 5 LIBUMP_MAX_MANIPULATORS)] = [0, 1, 2, 3, 4]"
  by (simp add: LIBUMP_MAX_MANIPULATORS_def upt_rec)

lemmas fake_eval = call_def set_timeout_def get_pos_def axis_count_def recv_def new_session_def
  fake_lib_def fake_fn_def first_arg_def fake0_def c_int_def xyzwe_def py_slice_to_def finally_set_timeout_def
  LIBUMP_TIMEOUT_def is_None_or_positive_def

lemma faulty_set_timeout:
  "fst (set_timeout fake_lib 20 faulty_session) = Inr ()"
  "fst (set_timeout fake_lib 0 faulty_session) = Inr ()"
  by (simp_all add: faulty_session_def fake_eval)

lemma faulty_list_devices:
  "fst (list_devices fake_lib 5 faulty_session) =
     Inl (UMPError (UMP_Error_From (- 7) ''error'' ''ump_get_positions_ext'' [2, 0]) (Some (- 7)) None)"
  by (simp add: list_devices_def upt5 faulty_session_def fake_eval)

lemma faulty_recv_all:
  "\<exists>S'. recv_all 5 fake_lib faulty_session = Some (Inl (UnboundLocalError ''d''), S')"
  by (simp add: recv_all_def eval_nat_numeral faulty_session_def fake_eval)

theorem timeout_restored_witness:
  "fst (set_timeout fake_lib 20 faulty_session) = Inr ()
   \<and> fst (list_devices fake_lib 5 faulty_session) =
       Inl (UMPError (UMP_Error_From (- 7) ''error'' ''ump_get_positions_ext'' [2, 0]) (Some (- 7)) None)
   \<and> timeout (snd (list_devices fake_lib 5 faulty_session)) = timeout faulty_session
   \<and> fst (set_timeout fake_lib 0 faulty_session) = Inr ()
   \<and> (\<exists>S'. recv_all 5 fake_lib faulty_session = Some (Inl (UnboundLocalError ''d''), S')
          \<and> timeout S' = timeout faulty_session)"
  using timeout_restored [of fake_lib faulty_session 5 5] faulty_set_timeout faulty_list_devices faulty_recv_all
  by auto

section \<open>Properties of \<open>recv_all\<close>\<close>

lemma recv_all_loop_result:
  "recv_all_loop n L d devs S = Some (Inr out, S') \<Longrightarrow>
   distinct devs \<Longrightarrow> (\<forall>x \<in> set devs. is_None_or_positive x) \<Longrightarrow>
   distinct out \<and> (\<forall>x \<in> set out. is_None_or_positive x)"
proof (induction n arbitrary: d devs S)
  case 0
  then show ?case by simp
next
  case (Suc n)
  obtain r S1 where rc: "recv L S = (r, S1)" by (cases "recv L S") auto
  show ?case
  proof (cases r)
    case (Inr v)
    let ?devs = "if is_None_or_positive v then List.insert v devs else devs"
    from Suc.prems rc Inr have "recv_all_loop n L (Some v) ?devs S1 = Some (Inr out, S')"
      by simp
    moreover have "distinct ?devs" using Suc.prems by simp
    moreover have "\<forall>x \<in> set ?devs. is_None_or_positive x" using Suc.prems by simp
    ultimately show ?thesis by (rule Suc.IH)
  next
    case (Inl e)
    show ?thesis
    proof (cases e)
      case (UMPError m errno oserrno)
      show ?thesis
      proof (cases "errno = Some (- 3)")
        case True
        with Suc.prems rc Inl UMPError show ?thesis by simp
      next
        case False
        with Suc.prems rc Inl UMPError obtain v where v: "d = Some v"
          by (cases d) auto
        let ?devs = "if is_None_or_positive v then List.insert v devs else devs"
        from Suc.prems rc Inl UMPError False v
        have "recv_all_loop n L d ?devs S1 = Some (Inr out, S')"
          by simp
        moreover have "distinct ?devs" using Suc.prems by simp
        moreover have "\<forall>x \<in> set ?devs. is_None_or_positive x" using Suc.prems by simp
        ultimately show ?thesis by (rule Suc.IH)
      qed
    qed (use Suc.prems rc Inl in auto)
  qed
qed

lemma finally_set_timeout_Inr:
  "finally_set_timeout L old body = (Inr x, S') \<Longrightarrow> fst body = Inr x"
  by (auto simp: finally_set_timeout_def split: prod.splits sum.splits)

text \<open>
  Claim C9. Device id 0 never appears in the list \<open>recv_all\<close> returns: every entry is
  \<open>None\<close> or an id greater than 0.
\<close>

theorem recv_all_drops_device_0:
  assumes "recv_all fuel L S = Some (Inr devs, S')"
  shows "Some 0 \<notin> set devs \<and> (\<forall>d \<in> set devs. d = None \<or> (\<exists>x. d = Some x \<and> 0 < x))"
proof -
  from assms obtain S1 body where "recv_all_loop fuel L None [] S1 = Some body"
    and f: "finally_set_timeout L (timeout S) body = (Inr devs, S')"
    by (auto simp: recv_all_def split: prod.splits sum.splits)
  moreover from f have "fst body = Inr devs" by (rule finally_set_timeout_Inr)
  ultimately have "recv_all_loop fuel L None [] S1 = Some (Inr devs, snd body)"
    by (metis prod.collapse)
  then have "\<forall>x \<in> set devs. is_None_or_positive x"
    using recv_all_loop_result [of fuel L None "[]" S1 devs "snd body"] by simp
  then show ?thesis
    by (auto simp: is_None_or_positive_def split: option.splits)
qed

lemma packets_with_0:
  "\<exists>S'. recv_all 6 fake_lib (packets_session [Packet 0 [1, 1, 1], Packet 3 [0, 0, 0], Packet 3 [0, 0, 1], Packet 7 [0, 0, 0]])
         = Some (Inr [Some 7, Some 3], S')"
  by (simp add: recv_all_def eval_nat_numeral packets_session_def fake_eval)

theorem recv_all_drops_device_0_witness:
  "\<exists>S'. recv_all 6 fake_lib (packets_session [Packet 0 [1, 1, 1], Packet 3 [0, 0, 0], Packet 3 [0, 0, 1], Packet 7 [0, 0, 0]])
         = Some (Inr [Some 7, Some 3], S')
        \<and> Some 0 \<notin> set [Some 7, Some (3::int)]"
proof -
  from packets_with_0 obtain S' where
    r: "recv_all 6 fake_lib (packets_session [Packet 0 [1, 1, 1], Packet 3 [0, 0, 0], Packet 3 [0, 0, 1], Packet 7 [0, 0, 0]])
         = Some (Inr [Some 7, Some 3], S')" ..
  from recv_all_drops_device_0 [OF r] have "Some 0 \<notin> set [Some 7, Some (3::int)]" ..
  with r show ?thesis by blast
qed

text \<open>
  Claim C5 at a run where the second receive fails with code \<open>-7\<close>: \<open>recv\<close> raises the
  error, and \<open>recv_all\<close> returns the devices of the packets around it instead of raising.
\<close>

theorem recv_all_swallows_error:
  "fst (recv fake_lib (packets_session [Fail (- 7), Packet 7 [0, 0, 0]]))
     = Inl (UMPError (UMP_Error_From (- 7) ''error'' ''ump_receive'' [0]) (Some (- 7)) None)
   \<and> map_option fst (recv_all 6 fake_lib (packets_session [Packet 3 [0, 0, 0], Fail (- 7), Packet 7 [0, 0, 0]]))
     = Some (Inr [Some 7, Some 3])"
  by (simp add: recv_all_def eval_nat_numeral packets_session_def fake_eval)

text \<open>Packets from the devices 3, 3 and 7, then nothing pending: the set of 3 and 7.\<close>

lemma recv_all_example:
  "map_option fst (recv_all 4 fake_lib (packets_session [Packet 3 [0, 0, 0], Packet 3 [0, 0, 1], Packet 7 [0, 0, 0]]))
     = Some (Inr [Some 7, Some 3])"
  by (simp add: recv_all_def eval_nat_numeral packets_session_def fake_eval)

section \<open>Properties of \<open>close\<close>\<close>

lemma call_int_closed: "h S = None \<Longrightarrow> call_int L fn args S = (Inl (TypeError ''UMP is not open.''), S)"
  by (simp add: call_int_def call_closed)

lemma set_timeout_closed:
  "h S = None \<Longrightarrow> set_timeout L t S = (Inl (TypeError ''UMP is not open.''), S\<lparr>timeout := t\<rparr>)"
  by (simp add: set_timeout_def call_closed)

lemma get_pos_closed: "h S = None \<Longrightarrow> get_pos L dev tmo S = (Inl (TypeError ''UMP is not open.''), S)"
  by (simp add: get_pos_def call_closed)

lemma goto_pos_closed:
  "h S = None \<Longrightarrow> goto_pos L F dev pos speed simultaneous S = (Inl (TypeError ''UMP is not open.''), S)"
  by (simp add: goto_pos_def get_pos_closed call_closed Let_def)

lemma is_busy_closed: "h S = None \<Longrightarrow> is_busy L dev S = (Inl (TypeError ''UMP is not open.''), S)"
  by (simp add: is_busy_def call_closed)

lemma recv_closed: "h S = None \<Longrightarrow> recv L S = (Inl (TypeError ''UMP is not open.''), S)"
  by (simp add: recv_def call_closed)

lemma list_devices_closed:
  "h S = None \<Longrightarrow> list_devices L max_id S = (Inl (TypeError ''UMP is not open.''), S\<lparr>timeout := 20\<rparr>)"
  by (simp add: list_devices_def set_timeout_closed)

lemma recv_all_closed:
  "h S = None \<Longrightarrow> recv_all fuel L S = Some (Inl (TypeError ''UMP is not open.''), S\<lparr>timeout := 0\<rparr>)"
  by (simp add: recv_all_def set_timeout_closed)

lemma transport_op_closed:
  assumes "h S = None" and "transport_op op"
  shows "\<exists>S'. exec_op fuel L F op S = Some (Inl (TypeError ''UMP is not open.''), S')"
  using assms
  by (cases op)
     (simp_all add: returning_def call_closed call_int_closed set_timeout_closed get_pos_closed
        goto_pos_closed is_busy_closed recv_closed list_devices_closed recv_all_closed
        stop_all_def stop_def select_def set_active_def set_pressure_def get_pressure_def
        set_valve_def get_valve_def set_custom_slow_speed_def get_custom_slow_speed_def)

lemma close_h: "h (close S) = None"
  by (simp add: close_def Let_def)

lemma close_not_alive: "\<not> alive (poller (close S))"
  by (simp add: close_def Let_def PollThread_join_def)

lemma close_close: "close (close S) = close S"
  by (simp add: close_def Let_def PollThread_join_def PollThread_stop_def)

text \<open>
  Claim C7, as the code has it. A second \<open>close\<close> raises nothing and leaves the session
  as the first one left it, and after the first \<open>close\<close> the poller thread is not alive.
  After \<open>close\<close>, every operation that starts with a request through \<open>call\<close> fails
  with the not-open error. \<open>axis_count\<close> fails with it only when it has to ask the
  library (the library has the query and no count is cached for the device); otherwise
  it returns the cached count, or 4, and raises nothing.
\<close>

theorem close_twice_and_after:
  "close (close S) = close S
   \<and> \<not> alive (poller (close S))
   \<and> (\<forall>op. transport_op op \<longrightarrow>
         (\<exists>S'. exec_op fuel L F op (close S) = Some (Inl (TypeError ''UMP is not open.''), S')))
   \<and> (\<forall>dev. fst (axis_count L dev (close S)) =
         (if has_axis_count S then
            (case axis_counts S dev of Some c \<Rightarrow> Inr c | None \<Rightarrow> Inl (TypeError ''UMP is not open.''))
          else Inr 4))"
proof (intro conjI allI impI)
  show "close (close S) = close S" by (rule close_close)
  show "\<not> alive (poller (close S))" by (rule close_not_alive)
next
  fix op
  assume "transport_op op"
  with close_h show "\<exists>S'. exec_op fuel L F op (close S) = Some (Inl (TypeError ''UMP is not open.''), S')"
    by (rule transport_op_closed)
next
  fix dev
  have "has_axis_count (close S) = has_axis_count S" "axis_counts (close S) = axis_counts S"
    by (simp_all add: close_def Let_def)
  then show "fst (axis_count L dev (close S)) =
         (if has_axis_count S then
            (case axis_counts S dev of Some c \<Rightarrow> Inr c | None \<Rightarrow> Inl (TypeError ''UMP is not open.''))
          else Inr 4)"
    by (simp add: axis_count_def call_closed close_h split: option.splits)
qed

text \<open>
  Claim C7 fails as stated: on a library without the axis-count query, \<open>axis_count\<close>
  after \<open>close\<close> returns 4 and raises nothing.
\<close>

theorem axis_count_after_close:
  "exec_op 1 fake_lib no_floats (Axis_count 1) (close old_lib_session) = Some (Inr (V_int 4), close old_lib_session)
   \<and> fst (axis_count fake_lib 1 (close old_lib_session)) \<noteq> Inl (TypeError ''UMP is not open.'')"
  by (simp add: returning_def axis_count_def close_def old_lib_session_def new_session_def)

theorem close_twice_and_after_witness:
  "transport_op (Get_pos 1 None)
   \<and> alive (poller old_lib_session)
   \<and> close (close old_lib_session) = close old_lib_session
   \<and> \<not> alive (poller (close old_lib_session))
   \<and> exec_op 1 fake_lib no_floats (Get_pos 1 None) (close old_lib_session)
        = Some (Inl (TypeError ''UMP is not open.''), close old_lib_session)
   \<and> fst (axis_count (recording fake_lib) 1 (close rec0)) = Inl (TypeError ''UMP is not open.'')"
proof -
  note t = close_twice_and_after [of old_lib_session 1 fake_lib no_floats]
  have a: "transport_op (Get_pos 1 None)" by simp
  with t obtain S' where
    "exec_op 1 fake_lib no_floats (Get_pos 1 None) (close old_lib_session) = Some (Inl (TypeError ''UMP is not open.''), S')"
    by blast
  moreover have "snd (get_pos fake_lib 1 None (close old_lib_session)) = close old_lib_session"
    by (simp add: get_pos_closed close_h)
  ultimately have b: "exec_op 1 fake_lib no_floats (Get_pos 1 None) (close old_lib_session)
        = Some (Inl (TypeError ''UMP is not open.''), close old_lib_session)"
    by (auto simp: returning_def split: prod.splits sum.splits)
  have c: "alive (poller old_lib_session)" by (simp add: old_lib_session_def new_session_def)
  have d: "fst (axis_count (recording fake_lib) 1 (close rec0)) = Inl (TypeError ''UMP is not open.'')"
  proof -
    have "has_axis_count rec0" "axis_counts rec0 1 = None"
      by (simp_all add: rec0_def new_session_def)
    with close_twice_and_after [of rec0 1 "recording fake_lib", THEN conjunct2, THEN conjunct2, THEN conjunct2, rule_format, of 1]
    show ?thesis by simp
  qed
  from t a b c d show ?thesis by blast
qed

section \<open>The axis-count override of a device handle\<close>

lemma call_cache:
  "has_axis_count (snd (call L fn args S)) = has_axis_count S"
  "axis_counts (snd (call L fn args S)) = axis_counts S"
  by (simp_all add: call_def Let_def split: option.splits prod.splits)

lemma overridden_call: "overridden d n S \<Longrightarrow> overridden d n (snd (call L fn args S))"
  by (simp add: overridden_def call_cache)

lemma overridden_call_int: "overridden d n S \<Longrightarrow> overridden d n (snd (call_int L fn args S))"
proof -
  have "snd (call_int L fn args S) = snd (call L fn args S)"
    by (simp add: call_int_def split: prod.splits sum.splits)
  then show "overridden d n S \<Longrightarrow> overridden d n (snd (call_int L fn args S))"
    by (simp add: overridden_call)
qed

lemma overridden_set_timeout: "overridden d n S \<Longrightarrow> overridden d n (snd (set_timeout L t S))"
proof -
  assume a: "overridden d n S"
  have "snd (set_timeout L t S) = snd (call L ''ump_set_timeout'' [t] (S\<lparr>timeout := t\<rparr>))"
    by (simp add: set_timeout_def split: prod.splits sum.splits)
  moreover from a have "overridden d n (S\<lparr>timeout := t\<rparr>)" by (simp add: overridden_def)
  ultimately show ?thesis by (simp add: overridden_call)
qed

lemma overridden_axis_count: "overridden d n S \<Longrightarrow> overridden d n (snd (axis_count L dev S))"
proof -
  assume a: "overridden d n S"
  show ?thesis
  proof (cases "axis_counts S dev")
    case (Some c)
    with a show ?thesis by (simp add: axis_count_def)
  next
    case None
    with a have ne: "dev \<noteq> d" by (auto simp: overridden_def)
    obtain r S1 where c: "call L ''ump_get_axis_count_ext'' [dev] S = (r, S1)"
      by (cases "call L ''ump_get_axis_count_ext'' [dev] S") auto
    from overridden_call [OF a, of L "''ump_get_axis_count_ext''" "[dev]"] c
    have "overridden d n S1" by simp
    with ne have "overridden d n (S1\<lparr>axis_counts := (axis_counts S1)(dev \<mapsto> x)\<rparr>)" for x
      by (simp add: overridden_def)
    with a None c \<open>overridden d n S1\<close> show ?thesis
      by (auto simp: axis_count_def split: sum.splits prod.splits)
  qed
qed

lemma overridden_get_pos: "overridden d n S \<Longrightarrow> overridden d n (snd (get_pos L dev tmo S))"
proof -
  assume a: "overridden d n S"
  let ?c = "call L ''ump_get_positions_ext'' [c_int dev, c_int (case tmo of None \<Rightarrow> timeout S | Some t \<Rightarrow> t)] S"
  have 1: "overridden d n (snd ?c)" using a by (rule overridden_call)
  then have 2: "overridden d n (snd (axis_count L dev (snd ?c)))" by (rule overridden_axis_count)
  have "snd (get_pos L dev tmo S) = snd ?c \<or> snd (get_pos L dev tmo S) = snd (axis_count L dev (snd ?c))"
    by (auto simp: get_pos_def Let_def split: prod.splits sum.splits)
  with 1 2 show ?thesis by auto
qed

lemma overridden_list_devices_loop:
  "overridden d n S \<Longrightarrow> overridden d n (snd (list_devices_loop L ids devs S))"
proof (induction ids arbitrary: devs S)
  case Nil
  then show ?case by simp
next
  case (Cons i rest)
  from Cons.prems have g: "overridden d n (snd (get_pos L i (Some 0) S))"
    by (rule overridden_get_pos)
  obtain r S1 where p: "get_pos L i (Some 0) S = (r, S1)" by (cases "get_pos L i (Some 0) S") auto
  with g have S1: "overridden d n S1" by simp
  show ?case
    using p Cons.IH [OF S1] S1
    by (auto split: sum.splits exn.splits)
qed

lemma overridden_finally:
  "overridden d n (snd body) \<Longrightarrow> overridden d n (snd (finally_set_timeout L old body))"
proof -
  assume a: "overridden d n (snd body)"
  have "snd (finally_set_timeout L old body) = snd (set_timeout L old (snd body))"
    by (simp add: finally_set_timeout_def split: prod.splits sum.splits)
  with a show ?thesis by (simp add: overridden_set_timeout)
qed

lemma overridden_list_devices: "overridden d n S \<Longrightarrow> overridden d n (snd (list_devices L max_id S))"
proof -
  assume a: "overridden d n S"
  then have 1: "overridden d n (snd (set_timeout L 20 S))" by (rule overridden_set_timeout)
  obtain r S1 where s: "set_timeout L 20 S = (r, S1)" by (cases "set_timeout L 20 S") auto
  with 1 have S1: "overridden d n S1" by simp
  show ?thesis
  proof (cases r)
    case (Inl e)
    with s S1 show ?thesis by (simp add: list_devices_def)
  next
    case (Inr u)
    with s show ?thesis
      by (simp add: list_devices_def overridden_finally overridden_list_devices_loop S1)
  qed
qed

lemma overridden_recv: "overridden d n S \<Longrightarrow> overridden d n (snd (recv L S))"
proof -
  assume a: "overridden d n S"
  have "snd (recv L S) = snd (call L ''ump_receive'' [0] S)"
    by (simp add: recv_def split: prod.splits sum.splits option.splits)
  with a show ?thesis by (simp add: overridden_call)
qed

lemma overridden_recv_all_loop:
  "recv_all_loop k L v devs S = Some out \<Longrightarrow> overridden d n S \<Longrightarrow> overridden d n (snd out)"
proof (induction k arbitrary: v devs S)
  case 0
  then show ?case by simp
next
  case (Suc k)
  obtain r S1 where rc: "recv L S = (r, S1)" by (cases "recv L S") auto
  with overridden_recv [OF Suc.prems(2), of L] have S1: "overridden d n S1" by simp
  from Suc.prems(1) rc show ?case
    by (auto split: sum.splits exn.splits if_splits option.splits dest: Suc.IH [OF _ S1] simp: S1)
qed

lemma overridden_recv_all:
  "recv_all fuel L S = Some out \<Longrightarrow> overridden d n S \<Longrightarrow> overridden d n (snd out)"
proof -
  assume r: "recv_all fuel L S = Some out" and a: "overridden d n S"
  obtain x S1 where s: "set_timeout L 0 S = (x, S1)" by (cases "set_timeout L 0 S") auto
  with overridden_set_timeout [OF a, of L 0] have S1: "overridden d n S1" by simp
  show ?thesis
  proof (cases x)
    case (Inl e)
    with r s S1 show ?thesis by (auto simp: recv_all_def)
  next
    case (Inr u)
    with r s obtain body where b: "recv_all_loop fuel L None [] S1 = Some body"
      and o: "out = finally_set_timeout L (timeout S) body"
      by (auto simp: recv_all_def)
    from overridden_recv_all_loop [OF b S1] have "overridden d n (snd body)" .
    with o show ?thesis by (simp add: overridden_finally)
  qed
qed

lemma overridden_goto_pos:
  "overridden d n S \<Longrightarrow> overridden d n (snd (goto_pos L F dev pos speed simultaneous S))"
proof -
  assume a: "overridden d n S"
  obtain r S1 where g: "get_pos L dev (Some 0) S = (r, S1)" by (cases "get_pos L dev (Some 0) S") auto
  with overridden_get_pos [OF a, of L dev "Some 0"] have S1: "overridden d n S1" by simp
  define pos4 where "pos4 = pos @ replicate (4 - length pos) 0"
  define mode :: int where "mode = (if simultaneous then 1 else 0)"
  define args where "args = (case r of
        Inl e \<Rightarrow> map c_int ([dev] @ pos4 @ map py_int [max 1 speed, max 1 speed, max 1 speed, max 1 speed] @ [mode])
      | Inr current_pos \<Rightarrow>
          (case goto_pos_args F dev pos speed mode current_pos of
             None \<Rightarrow> map c_int ([dev] @ pos4 @ map py_int [max 1 speed, max 1 speed, max 1 speed, max 1 speed] @ [mode])
           | Some a \<Rightarrow> a))"
  obtain r2 S2 where c2: "call L ''ump_goto_position_ext2'' args S1 = (r2, S2)"
    by (cases "call L ''ump_goto_position_ext2'' args S1") auto
  obtain r3 S3 where c3: "call L ''ump_receive'' [1] S2 = (r3, S3)"
    by (cases "call L ''ump_receive'' [1] S2") auto
  from overridden_call [OF S1, of L "''ump_goto_position_ext2''" args] c2 have S2: "overridden d n S2" by simp
  from overridden_call [OF S2, of L "''ump_receive''" "[1]"] c3 have S3: "overridden d n S3" by simp
  have eq: "goto_pos L F dev pos speed simultaneous S =
      (case call L ''ump_goto_position_ext2'' args S1 of
         (Inl e, S2) \<Rightarrow> (Inl e, S2)
       | (Inr _, S2) \<Rightarrow>
           (case call L ''ump_receive'' [1] S2 of
              (Inl e, S3) \<Rightarrow> (Inl e, S3)
            | (Inr _, S3) \<Rightarrow> (Inr (), S3)))"
    unfolding goto_pos_def Let_def g args_def pos4_def mode_def by (simp only: prod.case)
  have "snd (goto_pos L F dev pos speed simultaneous S) = S2 \<or> snd (goto_pos L F dev pos speed simultaneous S) = S3"
    unfolding eq c2 using c3 by (cases r2; cases r3) simp_all
  with S2 S3 show ?thesis by auto
qed

lemma overridden_is_busy: "overridden d n S \<Longrightarrow> overridden d n (snd (is_busy L dev S))"
proof -
  assume a: "overridden d n S"
  obtain r1 S1 where c1: "call L ''ump_receive'' [10] S = (r1, S1)"
    by (cases "call L ''ump_receive'' [10] S") auto
  obtain r2 S2 where c2: "call L ''ump_get_status_ext'' [c_int dev] S1 = (r2, S2)"
    by (cases "call L ''ump_get_status_ext'' [c_int dev] S1") auto
  from overridden_call [OF a, of L "''ump_receive''" "[10]"] c1 have S1: "overridden d n S1" by simp
  from overridden_call [OF S1, of L "''ump_get_status_ext''" "[c_int dev]"] c2 have S2: "overridden d n S2" by simp
  have "snd (is_busy L dev S) = S1 \<or> snd (is_busy L dev S) = S2"
    using c1 c2 by (simp add: is_busy_def split: sum.splits prod.splits)
  with S1 S2 show ?thesis by auto
qed

lemma overridden_invoked:
  "overridden d n (S\<lparr>poller := P\<rparr>) = overridden d n S"
  by (simp add: overridden_def)

lemma overridden_dispatch:
  "overridden d n S \<Longrightarrow> overridden d n (snd (dispatch L snapshot items last_pos S))"
proof (induction items arbitrary: S)
  case Nil
  then show ?case by simp
next
  case (Cons item rest)
  obtain dev_id dev_callbacks where item: "item = (dev_id, dev_callbacks)" by (cases item) auto
  obtain r S1 where g: "get_pos L dev_id (Some 20) S = (r, S1)"
    by (cases "get_pos L dev_id (Some 20) S") auto
  with overridden_get_pos [OF Cons.prems, of L dev_id "Some 20"] have S1: "overridden d n S1" by simp
  show ?case
  proof (cases "length snapshot = 0")
    case True
    with Cons show ?thesis by (simp add: item)
  next
    case False
    show ?thesis
    proof (cases r)
      case (Inl e)
      with False g S1 show ?thesis by (simp add: item)
    next
      case (Inr new_pos)
      have "overridden d n (if Some new_pos \<noteq> last_pos dev_id then
                          S1\<lparr>poller := (poller S1)
                               \<lparr>invoked := invoked (poller S1) @ map (\<lambda>cb. (cb, dev_id, new_pos, last_pos dev_id)) dev_callbacks\<rparr>\<rparr>
                        else S1)"
        using S1 by (simp add: overridden_invoked)
      from Cons.IH [OF this] Inr False g show ?thesis
        by (simp add: item Let_def)
    qed
  qed
qed

lemma overridden_poll_iteration:
  "overridden d n S \<Longrightarrow> overridden d n (poll_iteration L interval_ms last_pos S)"
proof -
  assume a: "overridden d n S"
  obtain r S1 where c: "call L ''ump_receive'' [c_int interval_ms] S = (r, S1)"
    by (cases "call L ''ump_receive'' [c_int interval_ms] S") auto
  from overridden_call [OF a, of L "''ump_receive''" "[c_int interval_ms]"] c have S1: "overridden d n S1" by simp
  from c S1 overridden_dispatch [OF S1] show ?thesis
    by (simp add: poll_iteration_def Let_def split: sum.splits)
qed

lemma overridden_close: "overridden d n S \<Longrightarrow> overridden d n (close S)"
  by (simp add: close_def Let_def overridden_def)

lemma overridden_SensapexDevice_init:
  "overridden d n S \<Longrightarrow> \<not> overrides d (New_device cb devid n_axes) \<Longrightarrow>
   overridden d n (SensapexDevice_init cb devid n_axes S)"
  by (cases n_axes) (simp_all add: SensapexDevice_init_def overridden_def)

lemma snd_returning: "snd (returning f out) = snd out"
  by (simp add: returning_def split: prod.splits sum.splits)

lemma overridden_exec_op:
  assumes "exec_op fuel L F op S = Some out" and "\<not> overrides d op" and "overridden d n S"
  shows "overridden d n (snd out)"
proof (cases op)
  case Recv_all
  with assms obtain o' where "recv_all fuel L S = Some o'" "out = returning V_devs o'"
    by auto
  with assms(3) show ?thesis
    by (simp add: snd_returning overridden_recv_all)
next
  case (New_device cb devid n_axes)
  with assms show ?thesis
    by (auto simp: overridden_SensapexDevice_init)
qed (use assms in \<open>auto simp: snd_returning overridden_call overridden_call_int overridden_set_timeout
       overridden_axis_count overridden_get_pos overridden_list_devices overridden_recv
       overridden_goto_pos overridden_is_busy overridden_poll_iteration overridden_close
       stop_all_def stop_def select_def set_active_def set_pressure_def get_pressure_def
       set_valve_def get_valve_def set_custom_slow_speed_def get_custom_slow_speed_def\<close>)

lemma overridden_run_ops:
  "run_ops fuel L F ops S = Some S' \<Longrightarrow> \<forall>op \<in> set ops. \<not> overrides d op \<Longrightarrow> overridden d n S \<Longrightarrow>
   overridden d n S'"
proof (induction ops arbitrary: S)
  case Nil
  then show ?case by simp
next
  case (Cons op ops)
  from Cons.prems(1) obtain out where e: "exec_op fuel L F op S = Some out"
    and r: "run_ops fuel L F ops (snd out) = Some S'"
    by (auto split: option.splits)
  from Cons.prems(2) have "\<not> overrides d op" by simp
  from overridden_exec_op [OF e this Cons.prems(3)] have "overridden d n (snd out)" .
  with Cons.IH [OF r] Cons.prems(2) show ?case by simp
qed

lemma get_pos_overridden:
  assumes "overridden dev n S"
  shows "get_pos L dev tmo S =
            (case call L ''ump_get_positions_ext'' [c_int dev, c_int (case tmo of None \<Rightarrow> timeout S | Some t \<Rightarrow> t)] S of
               (Inl e, S1) \<Rightarrow> (Inl e, S1)
             | (Inr (r, outs), S1) \<Rightarrow> (Inr (py_slice_to (xyzwe outs) n), S1))"
proof -
  let ?c = "call L ''ump_get_positions_ext'' [c_int dev, c_int (case tmo of None \<Rightarrow> timeout S | Some t \<Rightarrow> t)] S"
  obtain r S1 where c: "?c = (r, S1)" by (cases ?c) auto
  from overridden_call [OF assms, of L "''ump_get_positions_ext''"] c have "overridden dev n S1"
    by (metis snd_conv)
  then have "axis_count L dev S1 = (Inr n, S1)"
    by (simp add: axis_count_def overridden_def)
  with c show ?thesis
    by (simp add: get_pos_def Let_def split: sum.splits)
qed

text \<open>
  Claim C10, as the code has it. On a library that has the axis-count query, a handle
  constructed with \<open>n_axes = n\<close> writes \<open>n\<close> into the shared cache; after any later
  operations on the session (none of them the construction of a handle with another
  override for the same device), \<open>axis_count\<close> returns \<open>n\<close> and leaves the session as it
  is, \<open>get_pos\<close> makes the position request only and cuts its result to \<open>n\<close> entries, and
  so the library is not asked for the axis count of the device.
\<close>

theorem axis_count_override_used:
  assumes "has_axis_count S"
    and "\<forall>op \<in> set ops. \<not> overrides devid op"
    and "run_ops fuel L F ops (SensapexDevice_init cb devid (Some n) S) = Some S'"
  shows "axis_count L devid S' = (Inr n, S')
       \<and> (\<forall>tmo. get_pos L devid tmo S' =
            (case call L ''ump_get_positions_ext'' [c_int devid, c_int (case tmo of None \<Rightarrow> timeout S' | Some t \<Rightarrow> t)] S' of
               (Inl e, S1) \<Rightarrow> (Inl e, S1)
             | (Inr (r, outs), S1) \<Rightarrow> (Inr (py_slice_to (xyzwe outs) n), S1)))
       \<and> (\<forall>tmo xs S''. get_pos L devid tmo S' = (Inr xs, S'') \<and> 0 \<le> n \<and> n \<le> 5 \<longrightarrow> int (length xs) = n)"
proof -
  from assms(1) have "overridden devid n (SensapexDevice_init cb devid (Some n) S)"
    by (simp add: SensapexDevice_init_def overridden_def)
  with assms(3,2) have o: "overridden devid n S'"
    by (rule overridden_run_ops)
  then have 1: "axis_count L devid S' = (Inr n, S')"
    by (simp add: axis_count_def overridden_def)
  note 2 = get_pos_overridden [OF o, of L]
  have 3: "int (length xs) = n"
    if "get_pos L devid tmo S' = (Inr xs, S'') \<and> 0 \<le> n \<and> n \<le> 5" for tmo xs S''
  proof -
    from that 2 [of tmo] obtain outs where "xs = py_slice_to (xyzwe outs) n"
      by (auto split: prod.splits sum.splits)
    with that show ?thesis by (simp add: length_py_slice_to length_xyzwe)
  qed
  from 1 2 3 show ?thesis by blast
qed

text \<open>
  Claim C10 fails as stated: on a library without the axis-count query, \<open>axis_count\<close>
  returns 4 before it looks at the cache, so the override 3 is not used.
\<close>

theorem axis_count_override_ignored:
  "axis_count fake_lib 1 (SensapexDevice_init 7 1 (Some 3) old_lib_session)
     = (Inr 4, SensapexDevice_init 7 1 (Some 3) old_lib_session)
   \<and> fst (get_pos fake_lib 1 (Some 0) (SensapexDevice_init 7 1 (Some 3) old_lib_session)) = Inr [0, 0, 0, 0]"
  by (simp add: SensapexDevice_init_def old_lib_session_def add_callback_def fake_eval)

lemma override_run:
  "\<exists>S'. run_ops 1 fake_lib no_floats [Get_pos 1 None, List_devices 3, Poll 30, Recv_all]
           (SensapexDevice_init 7 1 (Some 4) (packets_session [])) = Some S'
        \<and> fst (get_pos fake_lib 1 (Some 0) S') = Inr [0, 0, 0, 0]"
  by (simp add: SensapexDevice_init_def packets_session_def add_callback_def returning_def
        list_devices_def LIBUMP_MAX_MANIPULATORS_def upt_rec poll_iteration_def recv_all_def fake_eval)

theorem axis_count_override_used_witness:
  "has_axis_count (packets_session [])
   \<and> \<not> overrides 1 (Get_pos 1 None) \<and> \<not> overrides 1 (List_devices 3)
   \<and> \<not> overrides 1 (Poll 30) \<and> \<not> overrides 1 Recv_all
   \<and> (\<exists>S'. run_ops 1 fake_lib no_floats [Get_pos 1 None, List_devices 3, Poll 30, Recv_all]
               (SensapexDevice_init 7 1 (Some 4) (packets_session [])) = Some S'
          \<and> axis_count fake_lib 1 S' = (Inr 4, S')
          \<and> fst (get_pos fake_lib 1 (Some 0) S') = Inr [0, 0, 0, 0]
          \<and> int (length [0, 0, 0, 0 :: int]) = 4)"
proof -
  have a: "has_axis_count (packets_session [])"
    by (simp add: packets_session_def new_session_def)
  have b: "\<forall>op \<in> set [Get_pos 1 None, List_devices 3, Poll 30, Recv_all]. \<not> overrides 1 op"
    by simp
  from override_run obtain S' where
    r: "run_ops 1 fake_lib no_floats [Get_pos 1 None, List_devices 3, Poll 30, Recv_all]
           (SensapexDevice_init 7 1 (Some 4) (packets_session [])) = Some S'"
    and g: "fst (get_pos fake_lib 1 (Some 0) S') = Inr [0, 0, 0, 0]"
    by blast
  from axis_count_override_used [OF a b r] have "axis_count fake_lib 1 S' = (Inr 4, S')"
    by blast
  with a r g show ?thesis by auto
qed

section \<open>Properties of the poller\<close>

lemma call_poller: "poller (snd (call L fn args S)) = poller S"
  by (simp add: call_def Let_def split: option.splits prod.splits)

lemma axis_count_poller: "poller (snd (axis_count L dev S)) = poller S"
proof -
  obtain r S1 where c: "call L ''ump_get_axis_count_ext'' [dev] S = (r, S1)"
    by (cases "call L ''ump_get_axis_count_ext'' [dev] S") auto
  with call_poller [of L "''ump_get_axis_count_ext''" "[dev]" S] have "poller S1 = poller S" by simp
  with c show ?thesis
    by (simp add: axis_count_def split: option.splits sum.splits prod.splits)
qed

lemma get_pos_poller: "poller (snd (get_pos L dev tmo S)) = poller S"
proof -
  let ?c = "call L ''ump_get_positions_ext'' [c_int dev, c_int (case tmo of None \<Rightarrow> timeout S | Some t \<Rightarrow> t)] S"
  have "snd (get_pos L dev tmo S) = snd ?c \<or> snd (get_pos L dev tmo S) = snd (axis_count L dev (snd ?c))"
    by (auto simp: get_pos_def Let_def split: prod.splits sum.splits)
  then show ?thesis
    by (auto simp: call_poller axis_count_poller)
qed

lemma dispatch_old_pos_absent:
  "old_pos_absent S \<Longrightarrow> old_pos_absent (snd (dispatch L snapshot items Map.empty S))"
proof (induction items arbitrary: S)
  case Nil
  then show ?case by simp
next
  case (Cons item rest)
  obtain dev_id dev_callbacks where item: "item = (dev_id, dev_callbacks)" by (cases item) auto
  obtain r S1 where g: "get_pos L dev_id (Some 20) S = (r, S1)"
    by (cases "get_pos L dev_id (Some 20) S") auto
  with get_pos_poller [of L dev_id "Some 20" S] Cons.prems have S1: "old_pos_absent S1"
    by (simp add: old_pos_absent_def)
  show ?case
  proof (cases "length snapshot = 0")
    case True
    with Cons show ?thesis by (simp add: item)
  next
    case False
    show ?thesis
    proof (cases r)
      case (Inl e)
      with False g S1 show ?thesis by (simp add: item)
    next
      case (Inr new_pos)
      have "old_pos_absent (S1\<lparr>poller := (poller S1)
                \<lparr>invoked := invoked (poller S1) @ map (\<lambda>cb. (cb, dev_id, new_pos, None)) dev_callbacks\<rparr>\<rparr>)"
        using S1 by (auto simp: old_pos_absent_def list_all_iff)
      from Cons.IH [OF this] Inr False g show ?thesis
        by (simp add: item Let_def)
    qed
  qed
qed

lemma poll_iteration_old_pos_absent:
  "old_pos_absent S \<Longrightarrow> old_pos_absent (poll_iteration L interval_ms Map.empty S)"
proof -
  assume a: "old_pos_absent S"
  obtain r S1 where c: "call L ''ump_receive'' [c_int interval_ms] S = (r, S1)"
    by (cases "call L ''ump_receive'' [c_int interval_ms] S") auto
  with call_poller [of L "''ump_receive''" "[c_int interval_ms]" S] a have S1: "old_pos_absent S1"
    by (simp add: old_pos_absent_def)
  from c S1 dispatch_old_pos_absent [OF S1] show ?thesis
    by (simp add: poll_iteration_def Let_def split: sum.splits)
qed

lemma run_loop_old_pos_absent:
  "run_loop k L interval_ms Map.empty S = Some S' \<Longrightarrow> old_pos_absent S \<Longrightarrow> old_pos_absent S'"
proof (induction k arbitrary: S)
  case 0
  then show ?case by simp
next
  case (Suc k)
  show ?case
  proof (cases "stop_flag (poller S)")
    case True
    with Suc.prems show ?thesis by (auto simp: old_pos_absent_def)
  next
    case False
    with Suc.prems(1) have "run_loop k L interval_ms Map.empty (poll_iteration L interval_ms Map.empty S) = Some S'"
      by simp
    moreover from Suc.prems(2) have "old_pos_absent (poll_iteration L interval_ms Map.empty S)"
      by (rule poll_iteration_old_pos_absent)
    ultimately show ?thesis by (rule Suc.IH)
  qed
qed

text \<open>
  \<open>run\<close> never assigns \<open>last_pos\<close>: whatever the library does, no observer is ever given
  an old position.
\<close>

lemma run_never_passes_old_pos:
  "run fuel L interval_ms S = Some S' \<Longrightarrow> invoked (poller S) = [] \<Longrightarrow> old_pos_absent S'"
  unfolding run_def by (erule run_loop_old_pos_absent) (simp add: old_pos_absent_def)

text \<open>
  Claim C1 at a run of two iterations in which the position of device 1 changes once,
  from \<open>[0,0,0]\<close> to \<open>[0,0,5]\<close>: the observers of both devices are invoked in each
  iteration, always with \<open>None\<close> as the old position.
\<close>

theorem poller_invokes_every_iteration:
  "invoked (poller (poll_iteration fake_lib 30 Map.empty observed_session))
     = [(10, 1, [0, 0, 0], None), (20, 2, [7, 7, 7], None)]
   \<and> invoked (poller (poll_iteration fake_lib 30 Map.empty (poll_iteration fake_lib 30 Map.empty observed_session)))
     = [(10, 1, [0, 0, 0], None), (20, 2, [7, 7, 7], None), (10, 1, [0, 0, 5], None), (20, 2, [7, 7, 7], None)]"
  by (simp add: observed_session_def SensapexDevice_init_def add_callback_def poll_iteration_def fake_eval)

end
